theory Spec2Isabelle
  imports Main "HOL-Library.Sublist"
begin

section \<open>The Kubernetes inventory plugin\<close>

text \<open>
  A shallow embedding of \<^verbatim>\<open>lib/ansible/plugins/inventory/kubernetes.py\<close>, class
  \<^verbatim>\<open>InventoryModule\<close>. The plugin talks to two collaborators that are not part of the
  file: the Kubernetes client library and Ansible's inventory object. Both are modelled
  by the calls the plugin makes on them. The answers of the client library are a
  parameter of the model (a \<open>world\<close>, which gives the same answer to the same request
  throughout a run); the calls received by the inventory object are kept, oldest first,
  in the field \<open>sink\<close> of the plugin's state. The inventory object never raises: its
  four operations are taken to accept every call, as the specification describes them.
  The plugin is Python 2 code (\<^verbatim>\<open>iteritems\<close>, \<^verbatim>\<open>e.message\<close>), and is modelled as such.
  The methods are given twice: with the client library imported, where a \<open>world\<close>
  answers, and without it, where its names are unbound; \<open>parse\<close> takes either.
\<close>

subsection \<open>Data of the cluster API\<close>

text \<open>
  Only the attributes the plugin reads are kept. A pod is read through
  \<^verbatim>\<open>pod.metadata.name\<close>, \<^verbatim>\<open>pod.metadata.labels\<close> and \<^verbatim>\<open>pod.spec.containers\<close>; the labels
  are kept as the list of pairs in the order \<^verbatim>\<open>iteritems()\<close> yields them. An endpoints
  object is read through \<^verbatim>\<open>e.metadata.name\<close> and \<^verbatim>\<open>e.subsets\<close>, an address through
  \<^verbatim>\<open>a.target_ref\<close>, which may be \<^verbatim>\<open>None\<close>. The labels of a pod, the subsets of an
  endpoints object and the addresses of a subset are always present, and names and kinds
  are strings, as in the data model of the specification.
\<close>

record container =
  container_name :: string

record pod =
  pod_name :: string
  pod_labels :: "(string \<times> string) list"
  pod_containers :: "container list"

record object_reference =
  ref_kind :: string
  ref_name :: string

record endpoint_address =
  target_ref :: "object_reference option"

record endpoint_subset =
  addresses :: "endpoint_address list"

record endpoints =
  endpoints_name :: string
  subsets :: "endpoint_subset list"

subsection \<open>Configuration\<close>

text \<open>
  A context is a dictionary read with \<^verbatim>\<open>context.get(key)\<close>: a field is \<open>None\<close> when the
  key is absent. \<open>cfg_plugin\<close> and \<open>cfg_contexts\<close> are the two keys of the configuration
  object.
\<close>

record kube_context =
  ctx_name :: "string option"
  server :: "string option"
  port :: "int option"
  token :: "string option"
  username :: "string option"
  local_kube_config :: "bool option"
  kubernetes_config_file :: "string option"
  namespaces :: "string list option"

record config_data =
  cfg_plugin :: "string option"
  cfg_contexts :: "kube_context list option"

subsection \<open>Exceptions\<close>

text \<open>
  Every handler of the file is the same triple \<^verbatim>\<open>ConfigException\<close>, \<^verbatim>\<open>ApiException\<close>,
  \<^verbatim>\<open>Exception\<close>, each passing \<^verbatim>\<open>e.message\<close> to \<^verbatim>\<open>_fail\<close>. The built-in exceptions the
  plugin's own statements can raise are kept apart from the ones the client raises.
\<close>

datatype exn =
    ConfigException string
  | ApiException string
  | TypeError string
  | AttributeError string
  | IndexError string
  | NameError string
  | OtherException string

fun message :: "exn \<Rightarrow> string" where
  "message (ConfigException m) = m"
| "message (ApiException m) = m"
| "message (TypeError m) = m"
| "message (AttributeError m) = m"
| "message (IndexError m) = m"
| "message (NameError m) = m"
| "message (OtherException m) = m"

text \<open>The messages are Python's, without their quotation marks.\<close>

definition not_iterable :: exn where
  "not_iterable = TypeError ''NoneType object is not iterable''"

definition not_subscriptable :: exn where
  "not_subscriptable = TypeError ''NoneType object has no attribute __getitem__''"

definition index_out_of_range :: exn where
  "index_out_of_range = IndexError ''list index out of range''"

definition no_api_attribute :: exn where
  "no_api_attribute = AttributeError ''InventoryModule object has no attribute api''"

definition name_error :: "string \<Rightarrow> exn" where
  "name_error n = NameError (''global name '' @ n @ '' is not defined'')"

subsection \<open>The synthesized credentials\<close>

text \<open>The dictionary built by \<^verbatim>\<open>_generate_kubernetes_config\<close>, key by key.\<close>

record cluster_info =
  insecure_skip_tls_verify :: string
  cluster_server :: string

record cluster_entry =
  cluster :: cluster_info
  cluster_name :: string

record context_info =
  context_cluster :: string
  context_namespace :: string
  context_user :: string

record context_entry =
  context_of :: context_info
  context_name :: string

record user_info =
  user_token :: "string option"

record user_entry =
  user_name :: string
  user_of :: user_info

record kubernetes_config =
  current_context :: string
  clusters :: "cluster_entry list"
  contexts :: "context_entry list"
  users :: "user_entry list"

subsection \<open>The client library and the inventory object\<close>

type_synonym client = nat

text \<open>
  A \<open>world\<close> is the client library, imported, with the clusters behind it.
  \<open>load_kube_config w f\<close> stands for \<^verbatim>\<open>config.load_kube_config(config_file=f)\<close> followed
  by \<^verbatim>\<open>core_v1_api.CoreV1Api()\<close>, \<open>load_and_set w d c\<close> for
  \<^verbatim>\<open>KubeConfigLoader(config_dict=d, active_context=c).load_and_set()\<close> followed by the
  same constructor: each gives the client built from the configuration just loaded, or
  the exception raised on the way.
\<close>

record world =
  load_kube_config :: "string option \<Rightarrow> exn + client"
  load_and_set :: "kubernetes_config \<Rightarrow> string \<Rightarrow> exn + client"
  list_namespaced_pod :: "client \<Rightarrow> string \<Rightarrow> exn + pod list"
  list_namespaced_endpoints :: "client \<Rightarrow> string \<Rightarrow> exn + endpoints list"

text \<open>
  The import block of lines 127 to 136. When an import fails the exception is swallowed
  and \<^verbatim>\<open>HAS_KUBERNETES\<close> is cleared, and nothing reads the flag afterwards: the names
  \<^verbatim>\<open>config\<close>, \<^verbatim>\<open>ConfigException\<close>, \<^verbatim>\<open>KubeConfigLoader\<close>, \<^verbatim>\<open>core_v1_api\<close> and \<^verbatim>\<open>ApiException\<close> stay
  unbound, in the bodies of the methods and in their \<^verbatim>\<open>except\<close> clauses alike. The block
  is taken to bind all of its names or, the library missing, none of them.
\<close>

datatype library = Missing | Imported world

text \<open>The calls made on the client library, each with what it returned.\<close>

datatype request =
    LoadKubeConfig "string option" "exn + client"
  | LoadAndSet kubernetes_config string "exn + client"
  | ListNamespacedPod client string "exn + pod list"
  | ListNamespacedEndpoints client string "exn + endpoints list"

datatype py_value = VStr string | VInt int | VNone

datatype sink_call =
    AddGroup string
  | AddChild string string
  | AddHost string
  | SetVariable string string py_value

text \<open>
  The attributes of the plugin object and the traces of its calls: \<open>api\<close> is
  \<^verbatim>\<open>self.api\<close>, unset until a \<^verbatim>\<open>_connect\<close> succeeds; \<open>plugin\<close> and \<open>inventory_hostname\<close> are
  assigned before each read; \<open>sink\<close> holds the calls made on \<^verbatim>\<open>self.inventory\<close>,
  \<open>errors\<close> the lines given to \<^verbatim>\<open>display.error\<close>, \<open>requests\<close> the calls made on the
  client library.
\<close>

record state =
  api :: "client option"
  plugin :: string
  inventory_hostname :: string
  sink :: "sink_call list"
  errors :: "string list"
  requests :: "request list"

definition init :: state where
  "init = \<lparr>api = None, plugin = [], inventory_hostname = [], sink = [], errors = [],
      requests = []\<rparr>"

text \<open>A statement either completes or raises, and in both cases leaves a state.\<close>

datatype outcome = Done state | Raised exn state

subsection \<open>Formatting\<close>

text \<open>\<^verbatim>\<open>str\<close> of an integer, as \<^verbatim>\<open>"{0}".format\<close> writes it.\<close>

function digits :: "nat \<Rightarrow> string" where
  "digits n = (if n < 10 then [''0123456789'' ! n] else digits (n div 10) @ [''0123456789'' ! (n mod 10)])"
  by pat_completeness auto
termination
  by (relation "measure id") auto

declare digits.simps [simp del]

definition str_int :: "int \<Rightarrow> string" where
  "str_int i = (if i < 0 then ''-'' @ digits (nat (- i)) else digits (nat i))"

text \<open>\<^verbatim>\<open>"{0}".format(v)\<close> for a value that may be \<^verbatim>\<open>None\<close>.\<close>

definition format_str :: "string option \<Rightarrow> string" where
  "format_str v = (case v of None \<Rightarrow> ''None'' | Some s \<Rightarrow> s)"

definition format_int :: "int option \<Rightarrow> string" where
  "format_int v = (case v of None \<Rightarrow> ''None'' | Some i \<Rightarrow> str_int i)"

subsection \<open>The methods, with the client library imported\<close>

text \<open>
  In this subsection every name of the library is bound, so that each of the three
  handler triples catches whatever is raised in its \<^verbatim>\<open>try\<close> statement. The next one has
  the same methods without the library.
\<close>

definition fail :: "string \<Rightarrow> state \<Rightarrow> state" where
  "fail msg st = st\<lparr>errors := errors st @ [msg]\<rparr>"

definition add_group :: "string \<Rightarrow> state \<Rightarrow> state" where
  "add_group g st = st\<lparr>sink := sink st @ [AddGroup g]\<rparr>"

definition add_child :: "string \<Rightarrow> string \<Rightarrow> state \<Rightarrow> state" where
  "add_child g c st = st\<lparr>sink := sink st @ [AddChild g c]\<rparr>"

definition add_host :: "string \<Rightarrow> state \<Rightarrow> state" where
  "add_host h st = st\<lparr>sink := sink st @ [AddHost h]\<rparr>"

definition set_variable :: "string \<Rightarrow> string \<Rightarrow> py_value \<Rightarrow> state \<Rightarrow> state" where
  "set_variable h k v st = st\<lparr>sink := sink st @ [SetVariable h k v]\<rparr>"

text \<open>\<^verbatim>\<open>_generate_kubernetes_config\<close>: \<^verbatim>\<open>context.get('namespaces')[0]\<close> raises on a missing
  or empty list.\<close>

definition generate_kubernetes_config :: "kube_context \<Rightarrow> exn + (kubernetes_config \<times> string)" where
  "generate_kubernetes_config context =
     (let username' = format_str (username context);
          server' = format_str (server context) @ '':'' @ format_int (port context)
      in case namespaces context of
           None \<Rightarrow> Inl not_subscriptable
         | Some [] \<Rightarrow> Inl index_out_of_range
         | Some (namespace0 # _) \<Rightarrow>
             (let current = namespace0 @ ''/'' @ server' @ ''/'' @ username';
                  users_name = username' @ ''/'' @ server'
              in Inr (\<lparr>current_context = current,
                        clusters = [\<lparr>cluster = \<lparr>insecure_skip_tls_verify = ''true'',
                                                 cluster_server = ''https://'' @ server'\<rparr>,
                                     cluster_name = server'\<rparr>],
                        contexts = [\<lparr>context_of = \<lparr>context_cluster = server',
                                                     context_namespace = namespace0,
                                                     context_user = users_name\<rparr>,
                                      context_name = current\<rparr>],
                        users = [\<lparr>user_name = users_name,
                                   user_of = \<lparr>user_token = token context\<rparr>\<rparr>]\<rparr>,
                      current)))"

text \<open>Truth of \<^verbatim>\<open>context.get('local_kube_config')\<close> and of
  \<^verbatim>\<open>context.get('kubernetes_config_file')\<close>: a missing key, \<^verbatim>\<open>False\<close> and the empty string
  are false.\<close>

definition truthy_bool :: "bool option \<Rightarrow> bool" where
  "truthy_bool v = (v = Some True)"

definition truthy_str :: "string option \<Rightarrow> bool" where
  "truthy_str v = (case v of None \<Rightarrow> False | Some s \<Rightarrow> s \<noteq> [])"

text \<open>
  \<^verbatim>\<open>_connect\<close>. \<open>connect_body\<close> is the body of its \<^verbatim>\<open>try\<close> statement (lines 202 to 212):
  the request made on the client library, if any, and the client built or the exception
  raised. \<open>connect\<close> adds the handlers: on success \<^verbatim>\<open>self.api\<close> is assigned, on failure the
  exception is reported and swallowed, and \<^verbatim>\<open>self.api\<close> stays what it was.
\<close>

definition connect_body :: "world \<Rightarrow> kube_context \<Rightarrow> request list \<times> (exn + client)" where
  "connect_body w context =
     (if truthy_bool (local_kube_config context) then
        (let r = load_kube_config w None in ([LoadKubeConfig None r], r))
      else if truthy_str (kubernetes_config_file context) then
        (let r = load_kube_config w (kubernetes_config_file context)
         in ([LoadKubeConfig (kubernetes_config_file context) r], r))
      else
        (case generate_kubernetes_config context of
           Inl e \<Rightarrow> ([], Inl e)
         | Inr (kubernetes_config, active_context) \<Rightarrow>
             (let r = load_and_set w kubernetes_config active_context
              in ([LoadAndSet kubernetes_config active_context r], r))))"

definition connect :: "world \<Rightarrow> kube_context \<Rightarrow> state \<Rightarrow> state" where
  "connect w context st =
     (case connect_body w context of
        (made, r) \<Rightarrow>
          (let st1 = st\<lparr>requests := requests st @ made\<rparr>
           in case r of Inl e \<Rightarrow> fail (message e) st1 | Inr a \<Rightarrow> st1\<lparr>api := Some a\<rparr>))"

text \<open>\<^verbatim>\<open>_kube_service_group\<close>: the three nested loops, innermost first. The test on the
  kind is \<^verbatim>\<open>"Pod" in a.target_ref.kind\<close>, a substring test.\<close>

fun service_addresses :: "string \<Rightarrow> endpoint_address list \<Rightarrow> state \<Rightarrow> state" where
  "service_addresses service_name [] st = st"
| "service_addresses service_name (a # rest) st =
     service_addresses service_name rest
       (case target_ref a of
          None \<Rightarrow> st
        | Some r \<Rightarrow>
            if sublist ''Pod'' (ref_kind r) then add_child service_name (ref_name r) st
            else st)"

fun service_subsets :: "string \<Rightarrow> endpoint_subset list \<Rightarrow> state \<Rightarrow> state" where
  "service_subsets service_name [] st = st"
| "service_subsets service_name (s # rest) st =
     service_subsets service_name rest (service_addresses service_name (addresses s) st)"

fun service_endpoints :: "endpoints list \<Rightarrow> state \<Rightarrow> state" where
  "service_endpoints [] st = st"
| "service_endpoints (e # rest) st =
     service_endpoints rest
       (service_subsets (endpoints_name e) (subsets e) (add_group (endpoints_name e) st))"

definition kube_service_group :: "world \<Rightarrow> string \<Rightarrow> state \<Rightarrow> state" where
  "kube_service_group w namespace st =
     (case api st of
        None \<Rightarrow> fail (message no_api_attribute) st
      | Some a \<Rightarrow>
          (let r = list_namespaced_endpoints w a namespace;
               st1 = st\<lparr>requests := requests st @ [ListNamespacedEndpoints a namespace r]\<rparr>
           in case r of
                Inl e \<Rightarrow> fail (message e) st1
              | Inr items \<Rightarrow> service_endpoints items st1))"

text \<open>\<^verbatim>\<open>_groupadd\<close>.\<close>

definition groupadd :: "string \<Rightarrow> string \<Rightarrow> state \<Rightarrow> state" where
  "groupadd group_name child_name st = add_child group_name child_name (add_group group_name st)"

text \<open>\<^verbatim>\<open>_hostvars\<close>: one host and nine variables, under \<^verbatim>\<open>self.inventory_hostname\<close>.\<close>

definition opt_str :: "string option \<Rightarrow> py_value" where
  "opt_str v = (case v of None \<Rightarrow> VNone | Some s \<Rightarrow> VStr s)"

definition hostvars :: "string \<Rightarrow> string \<Rightarrow> string \<Rightarrow> kube_context \<Rightarrow> state \<Rightarrow> state" where
  "hostvars namespace pod_name' container_name' context st =
     (let h = inventory_hostname st in
      set_variable h ''ansible_kube_container'' (VStr container_name')
     (set_variable h ''ansible_kube_config_file'' (opt_str (kubernetes_config_file context))
     (set_variable h ''ansible_kube_namespace'' (VStr namespace)
     (set_variable h ''ansible_kubernetes_cluster'' (opt_str (server context))
     (set_variable h ''ansible_kubernetes_port''
        (case port context of None \<Rightarrow> VInt 8443 | Some p \<Rightarrow> VInt p)
     (set_variable h ''ansible_password'' (opt_str (token context))
     (set_variable h ''ansible_user'' (opt_str (username context))
     (set_variable h ''ansible_connection'' (VStr (plugin st))
     (set_variable h ''ansible_host'' (VStr pod_name')
     (add_host h st))))))))))"

text \<open>\<^verbatim>\<open>_populate\<close>, innermost loop first: the containers of a pod (lines 303 to 307), its
  labels (lines 308 and 309), a pod (line 302), the pods of a listing (line 298), the
  namespaces of a context (lines 296 to 310), a context (lines 295 and 296), the contexts
  (line 294) and the whole method with its handlers.\<close>

fun populate_containers ::
  "string \<Rightarrow> pod \<Rightarrow> kube_context \<Rightarrow> container list \<Rightarrow> state \<Rightarrow> state" where
  "populate_containers namespace p context [] st = st"
| "populate_containers namespace p context (c # rest) st =
     (let st1 = st\<lparr>inventory_hostname := container_name c @ ''_'' @ pod_name p\<rparr>;
          st2 = hostvars namespace (pod_name p) (container_name c) context st1;
          st3 = groupadd namespace (inventory_hostname st2) st2;
          st4 = groupadd (pod_name p) (inventory_hostname st3) st3
      in populate_containers namespace p context rest st4)"

fun populate_labels :: "pod \<Rightarrow> (string \<times> string) list \<Rightarrow> state \<Rightarrow> state" where
  "populate_labels p [] st = st"
| "populate_labels p ((key, val) # rest) st =
     populate_labels p rest (groupadd (key @ ''_'' @ val) (pod_name p) st)"

definition populate_pod :: "string \<Rightarrow> kube_context \<Rightarrow> pod \<Rightarrow> state \<Rightarrow> state" where
  "populate_pod namespace context p st =
     (if \<not> sublist ''-build'' (pod_name p) then
        populate_labels p (pod_labels p)
          (populate_containers namespace p context (pod_containers p) st)
      else st)"

fun populate_pods :: "string \<Rightarrow> kube_context \<Rightarrow> pod list \<Rightarrow> state \<Rightarrow> state" where
  "populate_pods namespace context [] st = st"
| "populate_pods namespace context (p # rest) st =
     populate_pods namespace context rest (populate_pod namespace context p st)"

fun populate_namespaces :: "world \<Rightarrow> kube_context \<Rightarrow> string list \<Rightarrow> state \<Rightarrow> outcome" where
  "populate_namespaces w context [] st = Done st"
| "populate_namespaces w context (namespace # rest) st =
     (case api st of
        None \<Rightarrow> Raised no_api_attribute st
      | Some a \<Rightarrow>
          (let r = list_namespaced_pod w a namespace;
               st1 = st\<lparr>requests := requests st @ [ListNamespacedPod a namespace r]\<rparr>
           in case r of
                Inl e \<Rightarrow> Raised e st1
              | Inr items \<Rightarrow>
                  populate_namespaces w context rest
                    (kube_service_group w namespace
                       (populate_pods namespace context items st1))))"

definition populate_context :: "world \<Rightarrow> kube_context \<Rightarrow> state \<Rightarrow> outcome" where
  "populate_context w context st =
     (let st1 = connect w context st
      in case namespaces context of
           None \<Rightarrow> Raised not_iterable st1
         | Some nss \<Rightarrow> populate_namespaces w context nss st1)"

fun populate_contexts :: "world \<Rightarrow> kube_context list \<Rightarrow> state \<Rightarrow> outcome" where
  "populate_contexts w [] st = Done st"
| "populate_contexts w (context # rest) st =
     (case populate_context w context st of
        Raised e st1 \<Rightarrow> Raised e st1
      | Done st1 \<Rightarrow> populate_contexts w rest st1)"

text \<open>\<^verbatim>\<open>config_data.get('plugin', 'kubernetes')\<close>.\<close>

definition get_plugin :: "config_data \<Rightarrow> string" where
  "get_plugin config = (case cfg_plugin config of None \<Rightarrow> ''kubernetes'' | Some p \<Rightarrow> p)"

definition populate :: "world \<Rightarrow> config_data \<Rightarrow> state \<Rightarrow> state" where
  "populate w config st =
     (let st1 = st\<lparr>plugin := get_plugin config\<rparr>
      in case (case cfg_contexts config of
                 None \<Rightarrow> Raised not_iterable st1
               | Some cs \<Rightarrow> populate_contexts w cs st1) of
           Raised e st2 \<Rightarrow> fail (message e) st2
         | Done st2 \<Rightarrow> st2)"

subsection \<open>The methods, without the client library\<close>

text \<open>
  The exception raised in the body of the \<^verbatim>\<open>try\<close> statement of \<^verbatim>\<open>_connect\<close>: the first name
  of the library that is looked up is unbound, unless \<^verbatim>\<open>_generate_kubernetes_config\<close>
  has raised before.
\<close>

definition connect_body_unbound :: "kube_context \<Rightarrow> exn" where
  "connect_body_unbound context =
     (if truthy_bool (local_kube_config context) then name_error ''config''
      else if truthy_str (kubernetes_config_file context) then name_error ''config''
      else
        (case generate_kubernetes_config context of
           Inl e \<Rightarrow> e
         | Inr (kubernetes_config, active_context) \<Rightarrow> name_error ''KubeConfigLoader''))"

text \<open>
  An exception that reaches one of the handler triples: to match it, the class of the
  first clause, \<^verbatim>\<open>ConfigException\<close>, is looked up, and it is unbound. A \<^verbatim>\<open>NameError\<close> takes
  the place of the exception and leaves the method; nothing is reported.
\<close>

definition unbound_handlers :: "exn \<Rightarrow> exn" where
  "unbound_handlers e = name_error ''ConfigException''"

definition connect_unbound :: "kube_context \<Rightarrow> exn" where
  "connect_unbound context = unbound_handlers (connect_body_unbound context)"

text \<open>
  \<^verbatim>\<open>_populate\<close>: the plugin name is assigned; then a missing list of contexts raises in
  the header of the loop, an empty list ends the loop at once, and otherwise the first
  \<^verbatim>\<open>_connect\<close> raises. An exception meets the handlers of \<^verbatim>\<open>_populate\<close>, which raise in turn.
\<close>

definition populate_unbound :: "config_data \<Rightarrow> state \<Rightarrow> outcome" where
  "populate_unbound config st =
     (let st1 = st\<lparr>plugin := get_plugin config\<rparr>
      in case cfg_contexts config of
           None \<Rightarrow> Raised (unbound_handlers not_iterable) st1
         | Some [] \<Rightarrow> Done st1
         | Some (context # rest) \<Rightarrow> Raised (unbound_handlers (connect_unbound context)) st1)"

subsection \<open>The entry point\<close>

text \<open>
  \<^verbatim>\<open>parse\<close>: the loader's failure is raised again as \<^verbatim>\<open>AnsibleParserError\<close>; an exception
  that leaves \<^verbatim>\<open>_populate\<close> leaves \<^verbatim>\<open>parse\<close> as it is.
\<close>

datatype escaped = AnsibleParserError exn | Uncaught exn

definition parse :: "library \<Rightarrow> exn + config_data \<Rightarrow> state \<Rightarrow> escaped + state" where
  "parse lib loaded st =
     (case loaded of
        Inl e \<Rightarrow> Inl (AnsibleParserError e)
      | Inr config \<Rightarrow>
          (case lib of
             Imported w \<Rightarrow> Inr (populate w config st)
           | Missing \<Rightarrow>
               (case populate_unbound config st of
                  Done st1 \<Rightarrow> Inr st1
                | Raised e st1 \<Rightarrow> Inl (Uncaught e))))"

subsection \<open>Reading the traces\<close>

text \<open>The state a statement leaves, completed or not.\<close>

fun state_of :: "outcome \<Rightarrow> state" where
  "state_of (Done st) = st"
| "state_of (Raised e st) = st"

text \<open>The hosts created, oldest first: the arguments of the \<^verbatim>\<open>add_host\<close> calls.\<close>

fun hosts_added :: "sink_call list \<Rightarrow> string list" where
  "hosts_added [] = []"
| "hosts_added (AddHost h # calls) = h # hosts_added calls"
| "hosts_added (AddGroup g # calls) = hosts_added calls"
| "hosts_added (AddChild g c # calls) = hosts_added calls"
| "hosts_added (SetVariable h k v # calls) = hosts_added calls"

text \<open>The pods the client library returned, each with the namespace it was listed in,
  in the order of the listings.\<close>

fun listed :: "request list \<Rightarrow> (string \<times> pod) list" where
  "listed [] = []"
| "listed (ListNamespacedPod a namespace (Inr items) # rs) = map (Pair namespace) items @ listed rs"
| "listed (ListNamespacedPod a namespace (Inl e) # rs) = listed rs"
| "listed (LoadKubeConfig f r # rs) = listed rs"
| "listed (LoadAndSet d c r # rs) = listed rs"
| "listed (ListNamespacedEndpoints a namespace r # rs) = listed rs"

text \<open>
  The calls one turn of each loop makes on the inventory object, written as lists:
  \<open>container_calls\<close> for one container of a pod (lines 304 to 307), \<open>label_calls\<close> for one
  label (line 309), \<open>pod_calls\<close> for one pod (lines 302 to 309), \<open>address_calls\<close> for one
  address and \<open>endpoints_calls\<close> for one endpoints object (lines 225 to 233). The lemmas
  below show that the loops make exactly these calls.
\<close>

definition container_calls ::
  "string \<Rightarrow> string \<Rightarrow> kube_context \<Rightarrow> pod \<Rightarrow> container \<Rightarrow> sink_call list" where
  "container_calls pl namespace context p c =
     (let h = container_name c @ ''_'' @ pod_name p in
      [AddHost h,
       SetVariable h ''ansible_host'' (VStr (pod_name p)),
       SetVariable h ''ansible_connection'' (VStr pl),
       SetVariable h ''ansible_user'' (opt_str (username context)),
       SetVariable h ''ansible_password'' (opt_str (token context)),
       SetVariable h ''ansible_kubernetes_port''
         (case port context of None \<Rightarrow> VInt 8443 | Some n \<Rightarrow> VInt n),
       SetVariable h ''ansible_kubernetes_cluster'' (opt_str (server context)),
       SetVariable h ''ansible_kube_namespace'' (VStr namespace),
       SetVariable h ''ansible_kube_config_file'' (opt_str (kubernetes_config_file context)),
       SetVariable h ''ansible_kube_container'' (VStr (container_name c)),
       AddGroup namespace, AddChild namespace h,
       AddGroup (pod_name p), AddChild (pod_name p) h])"

definition label_calls :: "pod \<Rightarrow> string \<times> string \<Rightarrow> sink_call list" where
  "label_calls p kv =
     [AddGroup (fst kv @ ''_'' @ snd kv), AddChild (fst kv @ ''_'' @ snd kv) (pod_name p)]"

definition pod_calls :: "string \<Rightarrow> string \<Rightarrow> kube_context \<Rightarrow> pod \<Rightarrow> sink_call list" where
  "pod_calls pl namespace context p =
     (if sublist ''-build'' (pod_name p) then []
      else concat (map (container_calls pl namespace context p) (pod_containers p)) @
           concat (map (label_calls p) (pod_labels p)))"

definition address_calls :: "string \<Rightarrow> endpoint_address \<Rightarrow> sink_call list" where
  "address_calls service_name a =
     (case target_ref a of
        None \<Rightarrow> []
      | Some r \<Rightarrow>
          if sublist ''Pod'' (ref_kind r) then [AddChild service_name (ref_name r)] else [])"

definition endpoints_calls :: "endpoints \<Rightarrow> sink_call list" where
  "endpoints_calls e =
     AddGroup (endpoints_name e) #
     concat (map (\<lambda>s. concat (map (address_calls (endpoints_name e)) (addresses s))) (subsets e))"

text \<open>The endpoints objects \<^verbatim>\<open>_kube_service_group\<close> gets to loop over: none when the
  listing fails.\<close>

definition listed_endpoints :: "world \<Rightarrow> string \<Rightarrow> state \<Rightarrow> endpoints list" where
  "listed_endpoints w namespace st =
     (case api st of
        None \<Rightarrow> []
      | Some a \<Rightarrow>
          (case list_namespaced_endpoints w a namespace of Inl e \<Rightarrow> [] | Inr items \<Rightarrow> items))"

text \<open>One completed turn of the namespace loop: the context, the namespace, the pods
  listed and the endpoints objects listed.\<close>

type_synonym visit = "kube_context \<times> string \<times> pod list \<times> endpoints list"

fun visit_calls :: "string \<Rightarrow> visit \<Rightarrow> sink_call list" where
  "visit_calls pl (context, namespace, items, es) =
     concat (map (pod_calls pl namespace context) items) @ concat (map endpoints_calls es)"

fun visit_listed :: "visit \<Rightarrow> (string \<times> pod) list" where
  "visit_listed (context, namespace, items, es) = map (Pair namespace) items"

text \<open>The host keys a list of pods gives rise to: one per container of each pod that is
  not a build pod.\<close>

definition host_keys :: "pod list \<Rightarrow> string list" where
  "host_keys ps =
     concat (map (\<lambda>p. map (\<lambda>c. container_name c @ ''_'' @ pod_name p) (pod_containers p))
       (filter (\<lambda>p. \<not> sublist ''-build'' (pod_name p)) ps))"

text \<open>\<open>headed Q G ys\<close>: every element of \<open>ys\<close> that satisfies \<open>Q\<close> starts a block of \<open>G\<close>,
  that is, the list from this element on begins with a list that satisfies \<open>G\<close>.\<close>

definition headed :: "('a \<Rightarrow> bool) \<Rightarrow> ('a list \<Rightarrow> bool) \<Rightarrow> 'a list \<Rightarrow> bool" where
  "headed Q G ys = (\<forall>pre a post. ys = pre @ a # post \<and> Q a \<longrightarrow> (\<exists>blk rest. G blk \<and> a # post = blk @ rest))"

definition is_add_host :: "sink_call \<Rightarrow> bool" where
  "is_add_host call = (case call of AddHost h \<Rightarrow> True | _ \<Rightarrow> False)"

text \<open>No child is added to a group before the group itself.\<close>

definition groups_first :: "sink_call list \<Rightarrow> bool" where
  "groups_first calls = (\<forall>pre g c post. calls = pre @ AddChild g c # post \<longrightarrow> AddGroup g \<in> set pre)"

text \<open>The contexts of a configuration: none when the key is missing.\<close>

definition contexts_of :: "config_data \<Rightarrow> kube_context list" where
  "contexts_of config = (case cfg_contexts config of None \<Rightarrow> [] | Some cs \<Rightarrow> cs)"

subsection \<open>An example cluster\<close>

text \<open>
  A namespace \<open>ns1\<close> with a pod of one container, a pod of two, a build pod, a pod
  without containers, and one endpoints object whose addresses point at a pod, at nothing, at a
  node and at a pod template; a namespace whose pods may not be listed; three ways to
  connect, one of which fails. The examples below run the plugin on it.
\<close>

definition web_1 :: pod where
  "web_1 = \<lparr>pod_name = ''web-1'', pod_labels = [(''app'', ''web'')],
      pod_containers = [\<lparr>container_name = ''app''\<rparr>]\<rparr>"

definition web_2 :: pod where
  "web_2 = \<lparr>pod_name = ''web-2'', pod_labels = [(''app'', ''web'')],
      pod_containers = [\<lparr>container_name = ''app''\<rparr>, \<lparr>container_name = ''proxy''\<rparr>]\<rparr>"

definition web_build_1 :: pod where
  "web_build_1 = \<lparr>pod_name = ''web-build-1'', pod_labels = [(''build'', ''web'')],
      pod_containers = [\<lparr>container_name = ''sti-build''\<rparr>]\<rparr>"

definition db_0 :: pod where
  "db_0 = \<lparr>pod_name = ''db-0'', pod_labels = [(''tier'', ''db'')], pod_containers = []\<rparr>"

definition web_svc :: endpoints where
  "web_svc = \<lparr>endpoints_name = ''web-svc'',
      subsets = [\<lparr>addresses =
        [\<lparr>target_ref = Some \<lparr>ref_kind = ''Pod'', ref_name = ''web-1''\<rparr>\<rparr>,
         \<lparr>target_ref = None\<rparr>,
         \<lparr>target_ref = Some \<lparr>ref_kind = ''Node'', ref_name = ''node-1''\<rparr>\<rparr>,
         \<lparr>target_ref = Some \<lparr>ref_kind = ''PodTemplate'', ref_name = ''web-template''\<rparr>\<rparr>]\<rparr>]\<rparr>"

definition example_cluster :: world where
  "example_cluster = \<lparr>
     load_kube_config = (\<lambda>f. if f = None then Inr 1
                              else if f = Some ''/etc/kube/missing.yaml''
                              then Inl (ConfigException ''Invalid kube-config file'')
                              else Inr 2),
     load_and_set = (\<lambda>d c. Inr 3),
     list_namespaced_pod = (\<lambda>a namespace.
        if namespace = ''ns1'' then Inr [web_1, web_2, web_build_1, db_0]
        else if namespace = ''forbidden'' then Inl (ApiException ''Forbidden'')
        else Inr []),
     list_namespaced_endpoints = (\<lambda>a namespace.
        if namespace = ''ns1'' then Inr [web_svc]
        else if namespace = ''ns2'' then Inl (ApiException ''endpoints is forbidden'')
        else Inr [])\<rparr>"

definition local_context :: kube_context where
  "local_context = \<lparr>ctx_name = Some ''local'', server = None, port = None, token = None,
      username = None, local_kube_config = Some True, kubernetes_config_file = None,
      namespaces = Some [''ns1'']\<rparr>"

definition file_context :: kube_context where
  "file_context = \<lparr>ctx_name = Some ''file'', server = None, port = None, token = None,
      username = None, local_kube_config = Some False,
      kubernetes_config_file = Some ''/etc/kube/missing.yaml'',
      namespaces = Some [''ns1'']\<rparr>"

definition token_context :: kube_context where
  "token_context = \<lparr>ctx_name = Some ''token'', server = Some ''api.example.com'',
      port = Some 6443, token = Some ''secret'', username = Some ''admin'',
      local_kube_config = Some False, kubernetes_config_file = None,
      namespaces = Some [''ns1'', ''ns2'']\<rparr>"

definition local_config :: config_data where
  "local_config = \<lparr>cfg_plugin = None, cfg_contexts = Some [local_context]\<rparr>"

definition forbidden_context :: kube_context where
  "forbidden_context = \<lparr>ctx_name = Some ''forbidden'', server = None, port = None, token = None,
      username = None, local_kube_config = Some True, kubernetes_config_file = None,
      namespaces = Some [''forbidden'']\<rparr>"

text \<open>Configurations of several contexts: one whose first context cannot connect, one
  whose first context may not list its pods, one whose second context may not.\<close>

definition failing_first_config :: config_data where
  "failing_first_config = \<lparr>cfg_plugin = None, cfg_contexts = Some [file_context, local_context]\<rparr>"

definition forbidden_first_config :: config_data where
  "forbidden_first_config =
     \<lparr>cfg_plugin = None, cfg_contexts = Some [forbidden_context, local_context]\<rparr>"

definition forbidden_second_config :: config_data where
  "forbidden_second_config =
     \<lparr>cfg_plugin = None, cfg_contexts = Some [local_context, forbidden_context, token_context]\<rparr>"

text \<open>A configuration object without the key \<open>contexts\<close>.\<close>

definition no_contexts_config :: config_data where
  "no_contexts_config = \<lparr>cfg_plugin = None, cfg_contexts = None\<rparr>"

text \<open>
  Two clusters, each with a pod \<open>web-1\<close> of one container \<open>app\<close> in the namespace \<open>ns1\<close>: the
  local credentials lead to the first, the token of \<open>token_context\<close> to the second.
\<close>

definition other_web_1 :: pod where
  "other_web_1 = \<lparr>pod_name = ''web-1'', pod_labels = [(''app'', ''shop'')],
      pod_containers = [\<lparr>container_name = ''app''\<rparr>]\<rparr>"

definition two_clusters :: world where
  "two_clusters = \<lparr>
     load_kube_config = (\<lambda>f. Inr 1),
     load_and_set = (\<lambda>d c. Inr 3),
     list_namespaced_pod = (\<lambda>a namespace.
        if namespace = ''ns1'' then (if a = 1 then Inr [web_1] else Inr [other_web_1])
        else Inr []),
     list_namespaced_endpoints = (\<lambda>a namespace. Inr [])\<rparr>"

definition two_clusters_config :: config_data where
  "two_clusters_config =
     \<lparr>cfg_plugin = Some ''kubectl'', cfg_contexts = Some [local_context, token_context]\<rparr>"

section \<open>The loops and the calls they make\<close>

lemmas example_defs = web_1_def web_2_def web_build_1_def db_0_def web_svc_def
  example_cluster_def local_context_def file_context_def token_context_def
  forbidden_context_def local_config_def

lemmas run_defs = populate_def populate_context_def connect_def connect_body_def
  kube_service_group_def
  populate_pod_def hostvars_def groupadd_def add_group_def add_child_def add_host_def
  set_variable_def fail_def get_plugin_def init_def truthy_bool_def truthy_str_def
  opt_str_def Let_def



lemma populate_containers_frame [simp]:
  "api (populate_containers ns p ctx cs st) = api st"
  "plugin (populate_containers ns p ctx cs st) = plugin st"
  "errors (populate_containers ns p ctx cs st) = errors st"
  "requests (populate_containers ns p ctx cs st) = requests st"
  by (induction cs arbitrary: st;
      simp add: Let_def hostvars_def groupadd_def add_group_def add_child_def add_host_def
        set_variable_def)+

lemma populate_containers_sink:
  "sink (populate_containers ns p ctx cs st) =
     sink st @ concat (map (container_calls (plugin st) ns ctx p) cs)"
  by (induction cs arbitrary: st)
     (simp_all add: Let_def hostvars_def groupadd_def add_group_def add_child_def add_host_def
        set_variable_def container_calls_def)

lemma populate_labels_frame [simp]:
  "api (populate_labels p ls st) = api st"
  "plugin (populate_labels p ls st) = plugin st"
  "errors (populate_labels p ls st) = errors st"
  "requests (populate_labels p ls st) = requests st"
  by (induction p ls st rule: populate_labels.induct;
      simp add: groupadd_def add_group_def add_child_def)+

lemma populate_labels_sink:
  "sink (populate_labels p ls st) = sink st @ concat (map (label_calls p) ls)"
  by (induction p ls st rule: populate_labels.induct)
     (simp_all add: groupadd_def add_group_def add_child_def label_calls_def)

lemma populate_pod_frame [simp]:
  "api (populate_pod ns ctx p st) = api st"
  "plugin (populate_pod ns ctx p st) = plugin st"
  "errors (populate_pod ns ctx p st) = errors st"
  "requests (populate_pod ns ctx p st) = requests st"
  by (simp_all add: populate_pod_def)

lemma populate_pod_sink:
  "sink (populate_pod ns ctx p st) = sink st @ pod_calls (plugin st) ns ctx p"
  by (simp add: populate_pod_def pod_calls_def populate_labels_sink populate_containers_sink)

lemma populate_pods_frame [simp]:
  "api (populate_pods ns ctx ps st) = api st"
  "plugin (populate_pods ns ctx ps st) = plugin st"
  "errors (populate_pods ns ctx ps st) = errors st"
  "requests (populate_pods ns ctx ps st) = requests st"
  by (induction ps arbitrary: st; simp)+

lemma populate_pods_sink:
  "sink (populate_pods ns ctx ps st) = sink st @ concat (map (pod_calls (plugin st) ns ctx) ps)"
  by (induction ps arbitrary: st) (simp_all add: populate_pod_sink)

lemma service_addresses_frame [simp]:
  "api (service_addresses n as st) = api st"
  "plugin (service_addresses n as st) = plugin st"
  "errors (service_addresses n as st) = errors st"
  "requests (service_addresses n as st) = requests st"
  by (induction as arbitrary: st; simp add: add_child_def split: option.splits)+

lemma service_addresses_sink:
  "sink (service_addresses n as st) = sink st @ concat (map (address_calls n) as)"
  by (induction as arbitrary: st)
     (simp_all add: add_child_def address_calls_def split: option.splits)

lemma service_subsets_frame [simp]:
  "api (service_subsets n ss st) = api st"
  "plugin (service_subsets n ss st) = plugin st"
  "errors (service_subsets n ss st) = errors st"
  "requests (service_subsets n ss st) = requests st"
  by (induction ss arbitrary: st; simp)+

lemma service_subsets_sink:
  "sink (service_subsets n ss st) =
     sink st @ concat (map (\<lambda>s. concat (map (address_calls n) (addresses s))) ss)"
  by (induction ss arbitrary: st) (simp_all add: service_addresses_sink)

lemma service_endpoints_frame [simp]:
  "api (service_endpoints es st) = api st"
  "plugin (service_endpoints es st) = plugin st"
  "errors (service_endpoints es st) = errors st"
  "requests (service_endpoints es st) = requests st"
  by (induction es arbitrary: st; simp add: add_group_def)+

lemma service_endpoints_sink:
  "sink (service_endpoints es st) = sink st @ concat (map endpoints_calls es)"
  by (induction es arbitrary: st)
     (simp_all add: service_subsets_sink add_group_def endpoints_calls_def)

lemma kube_service_group_frame [simp]:
  "api (kube_service_group w ns st) = api st"
  "plugin (kube_service_group w ns st) = plugin st"
  by (simp_all add: kube_service_group_def fail_def Let_def split: option.splits sum.splits)

lemma kube_service_group_sink:
  "sink (kube_service_group w ns st) = sink st @ concat (map endpoints_calls (listed_endpoints w ns st))"
  by (simp add: kube_service_group_def listed_endpoints_def fail_def Let_def service_endpoints_sink
      split: option.splits sum.splits)

lemma connect_frame [simp]:
  "plugin (connect w c st) = plugin st"
  "sink (connect w c st) = sink st"
  "inventory_hostname (connect w c st) = inventory_hostname st"
  by (simp_all add: connect_def fail_def Let_def split: sum.splits prod.splits)

lemma listed_append [simp]: "listed (xs @ ys) = listed xs @ listed ys"
  by (induction xs rule: listed.induct) simp_all

lemma hosts_added_append [simp]: "hosts_added (xs @ ys) = hosts_added xs @ hosts_added ys"
  by (induction xs rule: hosts_added.induct) simp_all

lemma kube_service_group_listed [simp]:
  "listed (requests (kube_service_group w ns st)) = listed (requests st)"
  by (simp add: kube_service_group_def fail_def Let_def split: option.splits sum.splits)

lemma connect_body_listed [simp]: "listed (fst (connect_body w c)) = []"
  by (simp add: connect_body_def Let_def split: sum.splits prod.splits)

lemma connect_listed [simp]: "listed (requests (connect w c st)) = listed (requests st)"
proof (cases "connect_body w c")
  case (Pair made r)
  with connect_body_listed [of w c] have "listed made = []" by simp
  with Pair show ?thesis
    by (simp add: connect_def fail_def Let_def split: sum.splits)
qed

text \<open>
  Whatever happens, a run is a sequence of completed turns of the namespace loop: the
  inventory object receives the calls of these turns and no other, and the pods listed
  are the pods of these turns.
\<close>

lemma populate_namespaces_visits:
  "\<exists>visits. sink (state_of (populate_namespaces w c nss st)) =
              sink st @ concat (map (visit_calls (plugin st)) visits) \<and>
            listed (requests (state_of (populate_namespaces w c nss st))) =
              listed (requests st) @ concat (map visit_listed visits) \<and>
            plugin (state_of (populate_namespaces w c nss st)) = plugin st \<and>
            (\<forall>v\<in>set visits. fst v = c)"
proof (induction nss arbitrary: st)
  case Nil
  have "sink st = sink st @ concat (map (visit_calls (plugin st)) []) \<and>
        listed (requests st) = listed (requests st) @ concat (map visit_listed []) \<and>
        (\<forall>v\<in>set ([] :: visit list). fst v = c)"
    by simp
  then show ?case by (intro exI [of _ "[]"]) simp
next
  case (Cons ns nss)
  show ?case
  proof (cases "api st")
    case None
    then show ?thesis by (intro exI [of _ "[]"]) simp
  next
    case (Some a)
    show ?thesis
    proof (cases "list_namespaced_pod w a ns")
      case (Inl e)
      with Some show ?thesis by (intro exI [of _ "[]"]) (simp add: Let_def)
    next
      case (Inr items)
      define st1 where "st1 = st\<lparr>requests := requests st @ [ListNamespacedPod a ns (Inr items)]\<rparr>"
      define st2 where "st2 = kube_service_group w ns (populate_pods ns c items st1)"
      have run: "populate_namespaces w c (ns # nss) st = populate_namespaces w c nss st2"
        using Some Inr by (simp add: Let_def st1_def st2_def)
      have sink2: "sink st2 = sink st @ visit_calls (plugin st) (c, ns, items, listed_endpoints w ns (populate_pods ns c items st1))"
        by (simp add: st2_def st1_def kube_service_group_sink populate_pods_sink)
      have listed2: "listed (requests st2) = listed (requests st) @ visit_listed (c, ns, items, listed_endpoints w ns (populate_pods ns c items st1))"
        by (simp add: st2_def st1_def)
      have plugin2: "plugin st2 = plugin st"
        by (simp add: st2_def st1_def)
      from Cons.IH [of st2] obtain visits where
        v: "sink (state_of (populate_namespaces w c nss st2)) =
              sink st2 @ concat (map (visit_calls (plugin st2)) visits)"
           "listed (requests (state_of (populate_namespaces w c nss st2))) =
              listed (requests st2) @ concat (map visit_listed visits)"
           "plugin (state_of (populate_namespaces w c nss st2)) = plugin st2"
           "\<forall>v\<in>set visits. fst v = c"
        by blast
      show ?thesis
        unfolding run
        apply (rule exI [of _ "(c, ns, items, listed_endpoints w ns (populate_pods ns c items st1)) # visits"])
        using v by (simp add: sink2 listed2 plugin2)
    qed
  qed
qed

lemma populate_context_visits:
  "\<exists>visits. sink (state_of (populate_context w c st)) =
              sink st @ concat (map (visit_calls (plugin st)) visits) \<and>
            listed (requests (state_of (populate_context w c st))) =
              listed (requests st) @ concat (map visit_listed visits) \<and>
            plugin (state_of (populate_context w c st)) = plugin st \<and>
            (\<forall>v\<in>set visits. fst v = c)"
proof (cases "namespaces c")
  case None
  then show ?thesis by (intro exI [of _ "[]"]) (simp add: populate_context_def)
next
  case (Some nss)
  from populate_namespaces_visits [of w c nss "connect w c st"] Some show ?thesis
    by (simp add: populate_context_def)
qed

lemma populate_contexts_visits:
  "\<exists>visits. sink (state_of (populate_contexts w cs st)) =
              sink st @ concat (map (visit_calls (plugin st)) visits) \<and>
            listed (requests (state_of (populate_contexts w cs st))) =
              listed (requests st) @ concat (map visit_listed visits) \<and>
            plugin (state_of (populate_contexts w cs st)) = plugin st \<and>
            (\<forall>v\<in>set visits. fst v \<in> set cs)"
proof (induction cs arbitrary: st)
  case Nil
  then show ?case by (intro exI [of _ "[]"]) simp
next
  case (Cons c cs)
  from populate_context_visits [of w c st] obtain v1 where
    v1: "sink (state_of (populate_context w c st)) = sink st @ concat (map (visit_calls (plugin st)) v1)"
        "listed (requests (state_of (populate_context w c st))) =
           listed (requests st) @ concat (map visit_listed v1)"
        "plugin (state_of (populate_context w c st)) = plugin st"
        "\<forall>v\<in>set v1. fst v = c"
    by blast
  show ?case
  proof (cases "populate_context w c st")
    case (Raised e st1)
    with v1 show ?thesis by (intro exI [of _ v1]) simp
  next
    case (Done st1)
    from Cons.IH [of st1] obtain v2 where
      v2: "sink (state_of (populate_contexts w cs st1)) = sink st1 @ concat (map (visit_calls (plugin st1)) v2)"
          "listed (requests (state_of (populate_contexts w cs st1))) =
             listed (requests st1) @ concat (map visit_listed v2)"
          "plugin (state_of (populate_contexts w cs st1)) = plugin st1"
          "\<forall>v\<in>set v2. fst v \<in> set cs"
      by blast
    from Done v1 v2 show ?thesis by (intro exI [of _ "v1 @ v2"]) auto
  qed
qed

lemma populate_visits:
  "\<exists>visits. sink (populate w config st) =
              sink st @ concat (map (visit_calls (get_plugin config)) visits) \<and>
            listed (requests (populate w config st)) =
              listed (requests st) @ concat (map visit_listed visits) \<and>
            (\<forall>v\<in>set visits. fst v \<in> set (contexts_of config))"
proof (cases "cfg_contexts config")
  case None
  then show ?thesis
    by (intro exI [of _ "[]"]) (simp add: populate_def fail_def Let_def)
next
  case (Some cs)
  define st0 where "st0 = st\<lparr>plugin := get_plugin config\<rparr>"
  from populate_contexts_visits [of w cs st0] obtain visits where
    v: "sink (state_of (populate_contexts w cs st0)) = sink st0 @ concat (map (visit_calls (plugin st0)) visits)"
       "listed (requests (state_of (populate_contexts w cs st0))) =
          listed (requests st0) @ concat (map visit_listed visits)"
       "\<forall>v\<in>set visits. fst v \<in> set cs"
    by blast
  have "sink (populate w config st) = sink (state_of (populate_contexts w cs st0))"
       "requests (populate w config st) = requests (state_of (populate_contexts w cs st0))"
    using Some by (simp_all add: populate_def Let_def st0_def fail_def split: outcome.splits)
  with v Some show ?thesis
    by (intro exI [of _ visits]) (simp add: st0_def contexts_of_def)
qed

section \<open>The example run\<close>

text \<open>The plugin run on the example cluster through the local credentials.\<close>

lemma example_sink:
  "sink (populate example_cluster local_config init) =
     [AddHost ''app_web-1'',
      SetVariable ''app_web-1'' ''ansible_host'' (VStr ''web-1''),
      SetVariable ''app_web-1'' ''ansible_connection'' (VStr ''kubernetes''),
      SetVariable ''app_web-1'' ''ansible_user'' VNone,
      SetVariable ''app_web-1'' ''ansible_password'' VNone,
      SetVariable ''app_web-1'' ''ansible_kubernetes_port'' (VInt 8443),
      SetVariable ''app_web-1'' ''ansible_kubernetes_cluster'' VNone,
      SetVariable ''app_web-1'' ''ansible_kube_namespace'' (VStr ''ns1''),
      SetVariable ''app_web-1'' ''ansible_kube_config_file'' VNone,
      SetVariable ''app_web-1'' ''ansible_kube_container'' (VStr ''app''),
      AddGroup ''ns1'',
      AddChild ''ns1'' ''app_web-1'',
      AddGroup ''web-1'',
      AddChild ''web-1'' ''app_web-1'',
      AddGroup ''app_web'',
      AddChild ''app_web'' ''web-1'',
      AddHost ''app_web-2'',
      SetVariable ''app_web-2'' ''ansible_host'' (VStr ''web-2''),
      SetVariable ''app_web-2'' ''ansible_connection'' (VStr ''kubernetes''),
      SetVariable ''app_web-2'' ''ansible_user'' VNone,
      SetVariable ''app_web-2'' ''ansible_password'' VNone,
      SetVariable ''app_web-2'' ''ansible_kubernetes_port'' (VInt 8443),
      SetVariable ''app_web-2'' ''ansible_kubernetes_cluster'' VNone,
      SetVariable ''app_web-2'' ''ansible_kube_namespace'' (VStr ''ns1''),
      SetVariable ''app_web-2'' ''ansible_kube_config_file'' VNone,
      SetVariable ''app_web-2'' ''ansible_kube_container'' (VStr ''app''),
      AddGroup ''ns1'',
      AddChild ''ns1'' ''app_web-2'',
      AddGroup ''web-2'',
      AddChild ''web-2'' ''app_web-2'',
      AddHost ''proxy_web-2'',
      SetVariable ''proxy_web-2'' ''ansible_host'' (VStr ''web-2''),
      SetVariable ''proxy_web-2'' ''ansible_connection'' (VStr ''kubernetes''),
      SetVariable ''proxy_web-2'' ''ansible_user'' VNone,
      SetVariable ''proxy_web-2'' ''ansible_password'' VNone,
      SetVariable ''proxy_web-2'' ''ansible_kubernetes_port'' (VInt 8443),
      SetVariable ''proxy_web-2'' ''ansible_kubernetes_cluster'' VNone,
      SetVariable ''proxy_web-2'' ''ansible_kube_namespace'' (VStr ''ns1''),
      SetVariable ''proxy_web-2'' ''ansible_kube_config_file'' VNone,
      SetVariable ''proxy_web-2'' ''ansible_kube_container'' (VStr ''proxy''),
      AddGroup ''ns1'',
      AddChild ''ns1'' ''proxy_web-2'',
      AddGroup ''web-2'',
      AddChild ''web-2'' ''proxy_web-2'',
      AddGroup ''app_web'',
      AddChild ''app_web'' ''web-2'',
      AddGroup ''tier_db'',
      AddChild ''tier_db'' ''db-0'',
      AddGroup ''web-svc'',
      AddChild ''web-svc'' ''web-1'',
      AddChild ''web-svc'' ''web-template'']"
  by (simp add: example_defs run_defs sublist_code)

lemma example_listed:
  "listed (requests (populate example_cluster local_config init)) =
     [(''ns1'', web_1), (''ns1'', web_2), (''ns1'', web_build_1), (''ns1'', db_0)]"
  by (simp add: example_cluster_def local_context_def local_config_def run_defs sublist_code)

lemma example_errors: "errors (populate example_cluster local_config init) = []"
  by (simp add: example_defs run_defs sublist_code)

section \<open>Build pods\<close>

lemma build_pod_calls: "sublist ''-build'' (pod_name p) \<Longrightarrow> pod_calls pl ns c p = []"
  by (simp add: pod_calls_def)

lemma populate_pods_filter:
  "populate_pods ns c items st =
     populate_pods ns c (filter (\<lambda>p. \<not> sublist ''-build'' (pod_name p)) items) st"
  by (induction items arbitrary: st) (simp_all add: populate_pod_def)

lemma ansible_host_container_calls:
  "SetVariable h ''ansible_host'' (VStr n) \<in> set (container_calls pl ns c p k) \<Longrightarrow> n = pod_name p"
  by (simp add: container_calls_def Let_def)

lemma ansible_host_pod_calls:
  "SetVariable h ''ansible_host'' (VStr n) \<in> set (pod_calls pl ns c p) \<Longrightarrow> \<not> sublist ''-build'' n"
  by (auto simp: pod_calls_def label_calls_def dest: ansible_host_container_calls split: if_splits)

lemma no_variable_endpoints_calls: "SetVariable h k v \<notin> set (endpoints_calls e)"
  by (auto simp: endpoints_calls_def address_calls_def split: option.splits if_splits)

lemma ansible_host_visit_calls:
  "SetVariable h ''ansible_host'' (VStr n) \<in> set (visit_calls pl v) \<Longrightarrow> \<not> sublist ''-build'' n"
  by (cases v) (auto simp: no_variable_endpoints_calls dest: ansible_host_pod_calls)

text \<open>
  C4. A pod whose name contains \<open>-build\<close> creates no host: processing it leaves the
  state as it was (no \<^verbatim>\<open>add_host\<close>, no \<^verbatim>\<open>set_variable\<close>, no call at all), a listing
  is processed as if its build pods were not in it, and after any run no
  \<open>ansible_host\<close> variable in the inventory names such a pod.
\<close>

theorem build_pod_creates_no_host:
  "(sublist ''-build'' (pod_name p) \<longrightarrow> populate_pod namespace context p st = st) \<and>
   populate_pods namespace context items st =
     populate_pods namespace context (filter (\<lambda>p. \<not> sublist ''-build'' (pod_name p)) items) st \<and>
   (\<forall>h n. SetVariable h ''ansible_host'' (VStr n) \<in> set (sink (populate w config init)) \<longrightarrow>
      \<not> sublist ''-build'' n)"
proof (intro conjI allI impI)
  assume "sublist ''-build'' (pod_name p)"
  then show "populate_pod namespace context p st = st"
    by (simp add: populate_pod_def)
next
  show "populate_pods namespace context items st =
     populate_pods namespace context (filter (\<lambda>p. \<not> sublist ''-build'' (pod_name p)) items) st"
    by (rule populate_pods_filter)
next
  fix h n
  assume a: "SetVariable h ''ansible_host'' (VStr n) \<in> set (sink (populate w config init))"
  obtain visits where
    "sink (populate w config init) = sink init @ concat (map (visit_calls (get_plugin config)) visits)"
    using populate_visits [of w config init] by blast
  with a obtain v where "SetVariable h ''ansible_host'' (VStr n) \<in> set (visit_calls (get_plugin config) v)"
    by (auto simp: init_def)
  then show "\<not> sublist ''-build'' n"
    by (rule ansible_host_visit_calls)
qed

theorem build_pod_creates_no_host_witness:
  "sublist ''-build'' (pod_name web_build_1) \<and>
   populate_pod ''ns1'' local_context web_build_1 init = init \<and>
   populate_pods ''ns1'' local_context [web_1, web_build_1, db_0] init =
     populate_pods ''ns1'' local_context [web_1, db_0] init \<and>
   SetVariable ''app_web-1'' ''ansible_host'' (VStr ''web-1'') \<in>
     set (sink (populate example_cluster local_config init)) \<and>
   \<not> sublist ''-build'' ''web-1''"
proof -
  have b: "sublist ''-build'' (pod_name web_build_1)"
    by (simp add: web_build_1_def sublist_code)
  have f: "filter (\<lambda>p. \<not> sublist ''-build'' (pod_name p)) [web_1, web_build_1, db_0] = [web_1, db_0]"
    by (simp add: example_defs sublist_code)
  have s: "SetVariable ''app_web-1'' ''ansible_host'' (VStr ''web-1'') \<in>
     set (sink (populate example_cluster local_config init))"
    by (simp add: example_sink)
  from build_pod_creates_no_host [of web_build_1 "''ns1''" local_context init
      "[web_1, web_build_1, db_0]" example_cluster local_config]
  show ?thesis using b f s by simp
qed

section \<open>Host keys\<close>

lemma hosts_added_concat: "hosts_added (concat xss) = concat (map hosts_added xss)"
  by (induction xss) simp_all

lemma hosts_added_label_calls: "hosts_added (concat (map (label_calls p) ls)) = []"
  by (induction ls) (simp_all add: label_calls_def)

lemma hosts_added_container_calls:
  "hosts_added (concat (map (container_calls pl ns c p) ks)) =
     map (\<lambda>k. container_name k @ ''_'' @ pod_name p) ks"
  by (induction ks) (simp_all add: container_calls_def Let_def)

lemma hosts_added_address_calls: "hosts_added (concat (map (address_calls n) as)) = []"
  by (induction as) (simp_all add: address_calls_def split: option.splits)

lemma hosts_added_subsets:
  "hosts_added (concat (map (\<lambda>s. concat (map (address_calls n) (addresses s))) ss)) = []"
  by (induction ss) (simp_all add: hosts_added_address_calls)

lemma hosts_added_endpoints_calls: "hosts_added (concat (map endpoints_calls es)) = []"
  by (induction es) (simp_all add: endpoints_calls_def hosts_added_subsets)

lemma hosts_added_pod_calls:
  "hosts_added (concat (map (pod_calls pl ns c) ps)) = host_keys ps"
  by (induction ps)
     (simp_all add: pod_calls_def host_keys_def hosts_added_container_calls hosts_added_label_calls)

lemma host_keys_append: "host_keys (ps @ qs) = host_keys ps @ host_keys qs"
  by (simp add: host_keys_def)

lemma hosts_added_visit_calls:
  "hosts_added (visit_calls pl v) = host_keys (map snd (visit_listed v))"
  by (cases v) (simp add: hosts_added_pod_calls hosts_added_endpoints_calls comp_def)

lemma hosts_added_visits:
  "hosts_added (concat (map (visit_calls pl) vs)) = host_keys (map snd (concat (map visit_listed vs)))"
  by (induction vs) (simp_all add: hosts_added_visit_calls host_keys_append host_keys_def)

lemma hosts_added_populate:
  "hosts_added (sink (populate w config init)) =
     host_keys (map snd (listed (requests (populate w config init))))"
proof -
  obtain visits where
    "sink (populate w config init) = sink init @ concat (map (visit_calls (get_plugin config)) visits)"
    "listed (requests (populate w config init)) = listed (requests init) @ concat (map visit_listed visits)"
    using populate_visits [of w config init] by blast
  then show ?thesis
    by (simp add: init_def hosts_added_visits)
qed

lemma key_inj:
  "CHR ''_'' \<notin> set c1 \<Longrightarrow> CHR ''_'' \<notin> set c2 \<Longrightarrow> c1 @ ''_'' @ p1 = c2 @ ''_'' @ p2 \<Longrightarrow>
     c1 = c2 \<and> p1 = p2"
proof (induction c1 arbitrary: c2)
  case Nil
  then show ?case by (cases c2) auto
next
  case (Cons x c1)
  then show ?case by (cases c2) auto
qed

lemma host_keys_distinct:
  assumes "distinct (map pod_name ps)"
    and "\<forall>p\<in>set ps. distinct (map container_name (pod_containers p)) \<and>
           (\<forall>c\<in>set (pod_containers p). CHR ''_'' \<notin> set (container_name c))"
  shows "distinct (concat (map (\<lambda>p. map (\<lambda>c. container_name c @ ''_'' @ pod_name p) (pod_containers p)) ps))"
  using assms
proof (induction ps)
  case Nil
  then show ?case by simp
next
  case (Cons p ps)
  have "distinct (map (\<lambda>n. n @ ''_'' @ pod_name p) (map container_name (pod_containers p)))"
    using Cons.prems(2) by (simp add: distinct_map inj_on_def)
  then have d1: "distinct (map (\<lambda>c. container_name c @ ''_'' @ pod_name p) (pod_containers p))"
    by (simp add: comp_def)
  have d2: "distinct (concat (map (\<lambda>p. map (\<lambda>c. container_name c @ ''_'' @ pod_name p) (pod_containers p)) ps))"
    using Cons by simp
  have d3: "container_name c @ ''_'' @ pod_name p \<noteq> container_name c' @ ''_'' @ pod_name q"
    if "c \<in> set (pod_containers p)" "q \<in> set ps" "c' \<in> set (pod_containers q)" for c q c'
  proof
    assume e: "container_name c @ ''_'' @ pod_name p = container_name c' @ ''_'' @ pod_name q"
    have "CHR ''_'' \<notin> set (container_name c)" "CHR ''_'' \<notin> set (container_name c')"
      using Cons.prems(2) that by auto
    from key_inj [OF this e] have "pod_name p = pod_name q" by simp
    with Cons.prems(1) that(2) show False by auto
  qed
  from d1 d2 d3 show ?case by auto
qed

text \<open>
  C3. The hosts a run creates are, in order, one for each container of each listed pod
  that is not a build pod, under the key \<open>container_name @ ''_'' @ pod_name\<close>: the
  container-list order is kept. The keys are pairwise different whenever the pods listed
  during the run, over all its contexts and namespaces, have different names and, in
  each pod, the containers have different names free of underscores (as the names of
  Kubernetes are). Names that are unique within each cluster are not enough: two
  contexts that lead to two clusters can both list a pod \<open>web-1\<close> with a container
  \<open>app\<close>, and the run creates the host \<open>app_web-1\<close> twice, as the example after the
  theorem shows.
\<close>

theorem host_keys_of_run:
  "hosts_added (sink (populate w config init)) =
     concat (map (\<lambda>p. map (\<lambda>c. container_name c @ ''_'' @ pod_name p) (pod_containers p))
       (filter (\<lambda>p. \<not> sublist ''-build'' (pod_name p))
          (map snd (listed (requests (populate w config init)))))) \<and>
   (distinct (map pod_name (filter (\<lambda>p. \<not> sublist ''-build'' (pod_name p))
        (map snd (listed (requests (populate w config init)))))) \<and>
    (\<forall>p\<in>set (filter (\<lambda>p. \<not> sublist ''-build'' (pod_name p))
        (map snd (listed (requests (populate w config init))))).
        distinct (map container_name (pod_containers p)) \<and>
        (\<forall>c\<in>set (pod_containers p). CHR ''_'' \<notin> set (container_name c))) \<longrightarrow>
    distinct (hosts_added (sink (populate w config init))))"
proof (intro conjI impI)
  show eq: "hosts_added (sink (populate w config init)) =
     concat (map (\<lambda>p. map (\<lambda>c. container_name c @ ''_'' @ pod_name p) (pod_containers p))
       (filter (\<lambda>p. \<not> sublist ''-build'' (pod_name p))
          (map snd (listed (requests (populate w config init))))))"
    using hosts_added_populate [of w config] by (simp add: host_keys_def)
  assume "distinct (map pod_name (filter (\<lambda>p. \<not> sublist ''-build'' (pod_name p))
        (map snd (listed (requests (populate w config init)))))) \<and>
    (\<forall>p\<in>set (filter (\<lambda>p. \<not> sublist ''-build'' (pod_name p))
        (map snd (listed (requests (populate w config init))))).
        distinct (map container_name (pod_containers p)) \<and>
        (\<forall>c\<in>set (pod_containers p). CHR ''_'' \<notin> set (container_name c)))"
  then show "distinct (hosts_added (sink (populate w config init)))"
    unfolding eq by (intro host_keys_distinct) blast+
qed

theorem host_keys_of_run_witness:
  "filter (\<lambda>p. \<not> sublist ''-build'' (pod_name p))
     (map snd (listed (requests (populate example_cluster local_config init)))) =
     [web_1, web_2, db_0] \<and>
   hosts_added (sink (populate example_cluster local_config init)) =
     [''app_web-1'', ''app_web-2'', ''proxy_web-2''] \<and>
   distinct (hosts_added (sink (populate example_cluster local_config init)))"
proof -
  have l: "filter (\<lambda>p. \<not> sublist ''-build'' (pod_name p))
     (map snd (listed (requests (populate example_cluster local_config init)))) =
     [web_1, web_2, db_0]"
    by (simp add: example_listed web_1_def web_2_def web_build_1_def db_0_def sublist_code)
  have h: "distinct (map pod_name (filter (\<lambda>p. \<not> sublist ''-build'' (pod_name p))
        (map snd (listed (requests (populate example_cluster local_config init)))))) \<and>
    (\<forall>p\<in>set (filter (\<lambda>p. \<not> sublist ''-build'' (pod_name p))
        (map snd (listed (requests (populate example_cluster local_config init))))).
        distinct (map container_name (pod_containers p)) \<and>
        (\<forall>c\<in>set (pod_containers p). CHR ''_'' \<notin> set (container_name c)))"
    unfolding l by (simp add: web_1_def web_2_def db_0_def)
  from host_keys_of_run [of example_cluster local_config] h
  have e: "hosts_added (sink (populate example_cluster local_config init)) =
     concat (map (\<lambda>p. map (\<lambda>c. container_name c @ ''_'' @ pod_name p) (pod_containers p))
       (filter (\<lambda>p. \<not> sublist ''-build'' (pod_name p))
          (map snd (listed (requests (populate example_cluster local_config init))))))"
    and d: "distinct (hosts_added (sink (populate example_cluster local_config init)))"
    by blast+
  from e have "hosts_added (sink (populate example_cluster local_config init)) =
     [''app_web-1'', ''app_web-2'', ''proxy_web-2'']"
    unfolding l by (simp add: web_1_def web_2_def db_0_def)
  with l d show ?thesis by blast
qed

theorem host_keys_of_run_counterexample:
  "ListNamespacedPod 1 ''ns1'' (Inr [web_1]) \<in>
     set (requests (populate two_clusters two_clusters_config init)) \<and>
   ListNamespacedPod 3 ''ns1'' (Inr [other_web_1]) \<in>
     set (requests (populate two_clusters two_clusters_config init)) \<and>
   map snd (listed (requests (populate two_clusters two_clusters_config init))) =
     [web_1, other_web_1] \<and>
   pod_name web_1 = pod_name other_web_1 \<and>
   hosts_added (sink (populate two_clusters two_clusters_config init)) =
     [''app_web-1'', ''app_web-1''] \<and>
   \<not> distinct (hosts_added (sink (populate two_clusters two_clusters_config init)))"
  by (simp add: two_clusters_def two_clusters_config_def local_context_def token_context_def
      web_1_def other_web_1_def run_defs generate_kubernetes_config_def sublist_code)

section \<open>Every host starts a block of calls\<close>

lemma headed_none: "\<forall>a\<in>set ys. \<not> Q a \<Longrightarrow> headed Q G ys"
  by (auto simp: headed_def)

lemma headed_append:
  assumes "headed Q G xs" and "headed Q G ys"
  shows "headed Q G (xs @ ys)"
  unfolding headed_def
proof (intro allI impI)
  fix pre a post
  assume h: "xs @ ys = pre @ a # post \<and> Q a"
  then consider u where "xs = pre @ u" "u @ ys = a # post" | u where "xs @ u = pre" "ys = u @ a # post"
    by (auto simp: append_eq_append_conv2)
  then show "\<exists>blk rest. G blk \<and> a # post = blk @ rest"
  proof cases
    case 1
    show ?thesis
    proof (cases u)
      case Nil
      with 1 have "ys = [] @ a # post" by simp
      with assms(2) h show ?thesis unfolding headed_def by blast
    next
      case (Cons b u')
      with 1 have xs: "xs = pre @ a # u'" and post: "post = u' @ ys" by auto
      from assms(1) xs h obtain blk rest where "G blk" "a # u' = blk @ rest"
        unfolding headed_def by blast
      then have "G blk \<and> a # post = blk @ (rest @ ys)" using post by simp
      then show ?thesis by blast
    qed
  next
    case 2
    with assms(2) h show ?thesis unfolding headed_def by blast
  qed
qed

lemma headed_concat: "(\<And>x. x \<in> set xs \<Longrightarrow> headed Q G (f x)) \<Longrightarrow> headed Q G (concat (map f xs))"
  by (induction xs) (simp_all add: headed_none headed_append)

lemma headed_block: "G blk \<Longrightarrow> \<forall>a\<in>set (tl blk). \<not> Q a \<Longrightarrow> headed Q G blk"
  unfolding headed_def
proof (intro allI impI)
  fix pre a post
  assume g: "G blk" and t: "\<forall>a\<in>set (tl blk). \<not> Q a" and h: "blk = pre @ a # post \<and> Q a"
  show "\<exists>b rest. G b \<and> a # post = b @ rest"
  proof (cases pre)
    case Nil
    with h g have "G blk \<and> a # post = blk @ []" by simp
    then show ?thesis by blast
  next
    case (Cons b pre')
    with h have "a \<in> set (tl blk)" by simp
    with t h show ?thesis by blast
  qed
qed

lemma headed_mono: "headed Q G ys \<Longrightarrow> (\<And>b. G b \<Longrightarrow> G' b) \<Longrightarrow> headed Q G' ys"
  unfolding headed_def by blast

lemma no_host_label_calls: "\<forall>a\<in>set (label_calls p kv). \<not> is_add_host a"
  by (simp add: label_calls_def is_add_host_def)

lemma no_host_endpoints_calls: "\<forall>a\<in>set (endpoints_calls e). \<not> is_add_host a"
  by (auto simp: endpoints_calls_def address_calls_def is_add_host_def split: option.splits if_splits)

lemma no_host_tl_container_calls: "\<forall>a\<in>set (tl (container_calls pl ns ctx p c)). \<not> is_add_host a"
  by (simp add: container_calls_def Let_def is_add_host_def)

lemma headed_pod_calls:
  "headed is_add_host
     (\<lambda>blk. \<exists>c. \<not> sublist ''-build'' (pod_name p) \<and> c \<in> set (pod_containers p) \<and>
         blk = container_calls pl ns ctx p c)
     (pod_calls pl ns ctx p)"
proof (cases "sublist ''-build'' (pod_name p)")
  case True
  then show ?thesis by (simp add: pod_calls_def headed_none)
next
  case False
  let ?G = "\<lambda>blk. \<exists>c. \<not> sublist ''-build'' (pod_name p) \<and> c \<in> set (pod_containers p) \<and>
         blk = container_calls pl ns ctx p c"
  have "headed is_add_host ?G (container_calls pl ns ctx p c)" if "c \<in> set (pod_containers p)" for c
  proof (rule headed_block)
    show "?G (container_calls pl ns ctx p c)" using that False by blast
    show "\<forall>a\<in>set (tl (container_calls pl ns ctx p c)). \<not> is_add_host a"
      by (rule no_host_tl_container_calls)
  qed
  then have a: "headed is_add_host ?G (concat (map (container_calls pl ns ctx p) (pod_containers p)))"
    by (rule headed_concat)
  have "headed is_add_host ?G (label_calls p kv)" for kv
    by (rule headed_none) (rule no_host_label_calls)
  then have b: "headed is_add_host ?G (concat (map (label_calls p) (pod_labels p)))"
    by (intro headed_concat)
  from False headed_append [OF a b] show ?thesis
    by (simp add: pod_calls_def)
qed

lemma headed_visit_calls:
  "headed is_add_host
     (\<lambda>blk. \<exists>ctx ns p c. fst v = ctx \<and> (ns, p) \<in> set (visit_listed v) \<and>
         \<not> sublist ''-build'' (pod_name p) \<and> c \<in> set (pod_containers p) \<and>
         blk = container_calls pl ns ctx p c)
     (visit_calls pl v)"
proof (cases v)
  case (fields ctx ns items es)
  let ?G = "\<lambda>blk. \<exists>ctx' ns' p c. fst v = ctx' \<and> (ns', p) \<in> set (visit_listed v) \<and>
         \<not> sublist ''-build'' (pod_name p) \<and> c \<in> set (pod_containers p) \<and>
         blk = container_calls pl ns' ctx' p c"
  have "headed is_add_host ?G (pod_calls pl ns ctx p)" if "p \<in> set items" for p
    using that fields by (intro headed_mono [OF headed_pod_calls]) auto
  then have a: "headed is_add_host ?G (concat (map (pod_calls pl ns ctx) items))"
    by (rule headed_concat)
  have "headed is_add_host ?G (endpoints_calls e)" for e
    by (rule headed_none) (rule no_host_endpoints_calls)
  then have b: "headed is_add_host ?G (concat (map endpoints_calls es))"
    by (intro headed_concat)
  from headed_append [OF a b] fields show ?thesis by simp
qed

lemma host_block:
  assumes "sink (populate w config init) = pre @ AddHost h # post"
  shows "\<exists>ctx ns p c rest. ctx \<in> set (contexts_of config) \<and>
           (ns, p) \<in> set (listed (requests (populate w config init))) \<and>
           \<not> sublist ''-build'' (pod_name p) \<and> c \<in> set (pod_containers p) \<and>
           AddHost h # post = container_calls (get_plugin config) ns ctx p c @ rest"
proof -
  obtain visits where
    v: "sink (populate w config init) = sink init @ concat (map (visit_calls (get_plugin config)) visits)"
       "listed (requests (populate w config init)) = listed (requests init) @ concat (map visit_listed visits)"
       "\<forall>v\<in>set visits. fst v \<in> set (contexts_of config)"
    using populate_visits [of w config init] by blast
  let ?G = "\<lambda>blk. \<exists>ctx ns p c. ctx \<in> set (contexts_of config) \<and>
           (ns, p) \<in> set (listed (requests (populate w config init))) \<and>
           \<not> sublist ''-build'' (pod_name p) \<and> c \<in> set (pod_containers p) \<and>
           blk = container_calls (get_plugin config) ns ctx p c"
  have "headed is_add_host ?G (visit_calls (get_plugin config) x)" if "x \<in> set visits" for x
    using that v(2,3) by (intro headed_mono [OF headed_visit_calls]) (auto simp: init_def)
  then have "headed is_add_host ?G (concat (map (visit_calls (get_plugin config)) visits))"
    by (rule headed_concat)
  then have "headed is_add_host ?G (sink (populate w config init))"
    using v(1) by (simp add: init_def)
  with assms have "\<exists>blk rest. ?G blk \<and> AddHost h # post = blk @ rest"
    unfolding headed_def by (auto simp: is_add_host_def)
  then show ?thesis by blast
qed

text \<open>A listed pod that is not a build pod leaves its calls in the inventory, one after
  the other.\<close>

lemma sublist_concat_map: "x \<in> set xs \<Longrightarrow> sublist (f x) (concat (map f xs))"
proof -
  assume "x \<in> set xs"
  then obtain a b where "xs = a @ x # b" by (auto dest: split_list)
  then have "concat (map f xs) = concat (map f a) @ f x @ concat (map f b)" by simp
  then show ?thesis by (metis sublist_appendI)
qed

lemma sublist_app_left: "sublist xs ys \<Longrightarrow> sublist xs (ys @ zs)"
  by (auto simp: sublist_def) (metis append.assoc)

lemma sublist_app_right: "sublist xs zs \<Longrightarrow> sublist xs (ys @ zs)"
  by (auto simp: sublist_def) (metis append.assoc)

lemma listed_pod_calls:
  assumes "(ns, p) \<in> set (listed (requests (populate w config init)))"
  shows "\<exists>ctx\<in>set (contexts_of config).
           sublist (pod_calls (get_plugin config) ns ctx p) (sink (populate w config init))"
proof -
  obtain visits where
    v: "sink (populate w config init) = sink init @ concat (map (visit_calls (get_plugin config)) visits)"
       "listed (requests (populate w config init)) = listed (requests init) @ concat (map visit_listed visits)"
       "\<forall>v\<in>set visits. fst v \<in> set (contexts_of config)"
    using populate_visits [of w config init] by blast
  from assms v(2) obtain x where x: "x \<in> set visits" "(ns, p) \<in> set (visit_listed x)"
    by (auto simp: init_def)
  obtain ctx ns' items es where f: "x = (ctx, ns', items, es)" by (cases x)
  with x(2) have p: "ns' = ns" "p \<in> set items" by auto
  have "sublist (pod_calls (get_plugin config) ns ctx p)
          (concat (map (pod_calls (get_plugin config) ns ctx) items))"
    using p(2) by (rule sublist_concat_map)
  then have "sublist (pod_calls (get_plugin config) ns ctx p) (visit_calls (get_plugin config) x)"
    using f p(1) by (simp add: sublist_app_left)
  moreover have "sublist (visit_calls (get_plugin config) x)
          (concat (map (visit_calls (get_plugin config)) visits))"
    using x(1) by (rule sublist_concat_map)
  ultimately have "sublist (pod_calls (get_plugin config) ns ctx p)
          (concat (map (visit_calls (get_plugin config)) visits))"
    by (rule sublist_order.order_trans)
  then have "sublist (pod_calls (get_plugin config) ns ctx p) (sink (populate w config init))"
    using v(1) by (simp add: init_def)
  moreover have "ctx \<in> set (contexts_of config)" using v(3) x(1) f by auto
  ultimately show ?thesis by blast
qed

lemma label_calls_in_pod_calls:
  assumes "\<not> sublist ''-build'' (pod_name p)" and "kv \<in> set (pod_labels p)"
  shows "sublist (label_calls p kv) (pod_calls pl ns ctx p)"
  using assms by (simp add: pod_calls_def sublist_app_right sublist_concat_map)

lemma container_calls_in_pod_calls:
  assumes "\<not> sublist ''-build'' (pod_name p)" and "c \<in> set (pod_containers p)"
  shows "sublist (container_calls pl ns ctx p c) (pod_calls pl ns ctx p)"
  using assms by (simp add: pod_calls_def sublist_app_left sublist_concat_map)

section \<open>Label groups\<close>

text \<open>
  C5. For every label \<open>key: val\<close> of every listed pod whose name does not contain
  \<open>-build\<close>, the inventory receives \<^verbatim>\<open>add_group\<close> for the group \<open>key @ ''_'' @ val\<close>
  immediately followed by \<^verbatim>\<open>add_child\<close> of the pod's name (not a host key) to that
  group, whether or not the pod has containers. The labels of a build pod are not read:
  the test on the pod's name at line 302 encloses the label loop of lines 308 and 309,
  as the example after the theorem shows.
\<close>

theorem label_groups:
  "(namespace, p) \<in> set (listed (requests (populate w config init))) \<and>
   \<not> sublist ''-build'' (pod_name p) \<and> (key, val) \<in> set (pod_labels p) \<longrightarrow>
   sublist [AddGroup (key @ ''_'' @ val), AddChild (key @ ''_'' @ val) (pod_name p)]
     (sink (populate w config init)) \<and>
   AddGroup (key @ ''_'' @ val) \<in> set (sink (populate w config init)) \<and>
   AddChild (key @ ''_'' @ val) (pod_name p) \<in> set (sink (populate w config init))"
proof (intro impI)
  assume a: "(namespace, p) \<in> set (listed (requests (populate w config init))) \<and>
   \<not> sublist ''-build'' (pod_name p) \<and> (key, val) \<in> set (pod_labels p)"
  then obtain ctx where
    "sublist (pod_calls (get_plugin config) namespace ctx p) (sink (populate w config init))"
    using listed_pod_calls by blast
  moreover have "sublist (label_calls p (key, val)) (pod_calls (get_plugin config) namespace ctx p)"
    using a by (intro label_calls_in_pod_calls) simp_all
  ultimately have s: "sublist (label_calls p (key, val)) (sink (populate w config init))"
    by (rule sublist_order.order_trans [rotated])
  then have "set (label_calls p (key, val)) \<subseteq> set (sink (populate w config init))"
    by (rule set_mono_sublist)
  with s show "sublist [AddGroup (key @ ''_'' @ val), AddChild (key @ ''_'' @ val) (pod_name p)]
     (sink (populate w config init)) \<and>
   AddGroup (key @ ''_'' @ val) \<in> set (sink (populate w config init)) \<and>
   AddChild (key @ ''_'' @ val) (pod_name p) \<in> set (sink (populate w config init))"
    by (simp add: label_calls_def)
qed

theorem label_groups_witness:
  "(''ns1'', db_0) \<in> set (listed (requests (populate example_cluster local_config init))) \<and>
   \<not> sublist ''-build'' (pod_name db_0) \<and> (''tier'', ''db'') \<in> set (pod_labels db_0) \<and>
   pod_containers db_0 = [] \<and>
   sublist [AddGroup ''tier_db'', AddChild ''tier_db'' ''db-0'']
     (sink (populate example_cluster local_config init)) \<and>
   AddGroup ''tier_db'' \<in> set (sink (populate example_cluster local_config init)) \<and>
   AddChild ''tier_db'' ''db-0'' \<in> set (sink (populate example_cluster local_config init))"
proof -
  have h: "(''ns1'', db_0) \<in> set (listed (requests (populate example_cluster local_config init))) \<and>
   \<not> sublist ''-build'' (pod_name db_0) \<and> (''tier'', ''db'') \<in> set (pod_labels db_0)"
    by (simp add: example_listed) (simp add: db_0_def sublist_code)
  have e: "pod_containers db_0 = []" "pod_name db_0 = ''db-0''"
    by (simp_all add: db_0_def)
  from label_groups [of "''ns1''" db_0 example_cluster local_config "''tier''" "''db''"] h e
  show ?thesis by simp
qed

theorem label_groups_counterexample:
  "(''ns1'', web_build_1) \<in> set (listed (requests (populate example_cluster local_config init))) \<and>
   (''build'', ''web'') \<in> set (pod_labels web_build_1) \<and>
   AddGroup ''build_web'' \<notin> set (sink (populate example_cluster local_config init)) \<and>
   AddChild ''build_web'' ''web-build-1'' \<notin> set (sink (populate example_cluster local_config init))"
  by (simp add: example_listed example_sink) (simp add: web_build_1_def)

section \<open>Group memberships of a host\<close>

text \<open>
  C7. Every \<^verbatim>\<open>add_host\<close> call of a run is for a container of a listed pod, and after its
  nine \<^verbatim>\<open>set_variable\<close> calls come \<^verbatim>\<open>add_group\<close> and \<^verbatim>\<open>add_child\<close> for the namespace and
  the host, then for the pod's name and the host. Conversely every container of every
  listed pod that is not a build pod has its host and both memberships in the inventory
  when the run ends: nothing removes a call once made.
\<close>

theorem host_group_memberships:
  "(sink (populate w config init) = pre @ AddHost h # post \<longrightarrow>
      (\<exists>ns q k vars rest.
         (ns, q) \<in> set (listed (requests (populate w config init))) \<and>
         k \<in> set (pod_containers q) \<and> h = container_name k @ ''_'' @ pod_name q \<and>
         length vars = 9 \<and>
         post = vars @ [AddGroup ns, AddChild ns h, AddGroup (pod_name q), AddChild (pod_name q) h] @ rest)) \<and>
   ((namespace, p) \<in> set (listed (requests (populate w config init))) \<and>
    \<not> sublist ''-build'' (pod_name p) \<and> c \<in> set (pod_containers p) \<longrightarrow>
      AddHost (container_name c @ ''_'' @ pod_name p) \<in> set (sink (populate w config init)) \<and>
      AddGroup namespace \<in> set (sink (populate w config init)) \<and>
      AddChild namespace (container_name c @ ''_'' @ pod_name p) \<in> set (sink (populate w config init)) \<and>
      AddGroup (pod_name p) \<in> set (sink (populate w config init)) \<and>
      AddChild (pod_name p) (container_name c @ ''_'' @ pod_name p) \<in> set (sink (populate w config init)))"
proof (rule conjI; rule impI)
  assume "sink (populate w config init) = pre @ AddHost h # post"
  from host_block [OF this] obtain ctx ns q k rest where
    b: "(ns, q) \<in> set (listed (requests (populate w config init)))"
       "k \<in> set (pod_containers q)"
       "AddHost h # post = container_calls (get_plugin config) ns ctx q k @ rest"
    by blast
  from b(3) have h: "h = container_name k @ ''_'' @ pod_name q"
    by (simp add: container_calls_def Let_def)
  from b(3) have "post = tl (container_calls (get_plugin config) ns ctx q k) @ rest"
    by (simp add: container_calls_def Let_def)
  then have "post = take 9 (tl (container_calls (get_plugin config) ns ctx q k)) @
      [AddGroup ns, AddChild ns h, AddGroup (pod_name q), AddChild (pod_name q) h] @ rest"
    using h by (simp add: container_calls_def Let_def)
  moreover have "length (take 9 (tl (container_calls (get_plugin config) ns ctx q k))) = 9"
    by (simp add: container_calls_def Let_def)
  ultimately show "\<exists>ns q k vars rest.
         (ns, q) \<in> set (listed (requests (populate w config init))) \<and>
         k \<in> set (pod_containers q) \<and> h = container_name k @ ''_'' @ pod_name q \<and>
         length vars = 9 \<and>
         post = vars @ [AddGroup ns, AddChild ns h, AddGroup (pod_name q), AddChild (pod_name q) h] @ rest"
    using b(1,2) h by blast
next
  assume a: "(namespace, p) \<in> set (listed (requests (populate w config init))) \<and>
    \<not> sublist ''-build'' (pod_name p) \<and> c \<in> set (pod_containers p)"
  then obtain ctx where
    "sublist (pod_calls (get_plugin config) namespace ctx p) (sink (populate w config init))"
    using listed_pod_calls by blast
  moreover have "sublist (container_calls (get_plugin config) namespace ctx p c)
      (pod_calls (get_plugin config) namespace ctx p)"
    using a by (intro container_calls_in_pod_calls) simp_all
  ultimately have "sublist (container_calls (get_plugin config) namespace ctx p c)
      (sink (populate w config init))"
    by (rule sublist_order.order_trans [rotated])
  then have "set (container_calls (get_plugin config) namespace ctx p c) \<subseteq>
      set (sink (populate w config init))"
    by (rule set_mono_sublist)
  then show "AddHost (container_name c @ ''_'' @ pod_name p) \<in> set (sink (populate w config init)) \<and>
      AddGroup namespace \<in> set (sink (populate w config init)) \<and>
      AddChild namespace (container_name c @ ''_'' @ pod_name p) \<in> set (sink (populate w config init)) \<and>
      AddGroup (pod_name p) \<in> set (sink (populate w config init)) \<and>
      AddChild (pod_name p) (container_name c @ ''_'' @ pod_name p) \<in> set (sink (populate w config init))"
    by (simp add: container_calls_def Let_def)
qed

theorem host_group_memberships_witness:
  "sink (populate example_cluster local_config init) =
     [] @ AddHost ''app_web-1'' # tl (sink (populate example_cluster local_config init)) \<and>
   (\<exists>ns q k vars rest.
      (ns, q) \<in> set (listed (requests (populate example_cluster local_config init))) \<and>
      k \<in> set (pod_containers q) \<and> ''app_web-1'' = container_name k @ ''_'' @ pod_name q \<and>
      length vars = 9 \<and>
      tl (sink (populate example_cluster local_config init)) =
        vars @ [AddGroup ns, AddChild ns ''app_web-1'', AddGroup (pod_name q),
                AddChild (pod_name q) ''app_web-1''] @ rest) \<and>
   (''ns1'', web_2) \<in> set (listed (requests (populate example_cluster local_config init))) \<and>
   \<not> sublist ''-build'' (pod_name web_2) \<and> \<lparr>container_name = ''proxy''\<rparr> \<in> set (pod_containers web_2) \<and>
   AddHost ''proxy_web-2'' \<in> set (sink (populate example_cluster local_config init)) \<and>
   AddGroup ''ns1'' \<in> set (sink (populate example_cluster local_config init)) \<and>
   AddChild ''ns1'' ''proxy_web-2'' \<in> set (sink (populate example_cluster local_config init)) \<and>
   AddGroup ''web-2'' \<in> set (sink (populate example_cluster local_config init)) \<and>
   AddChild ''web-2'' ''proxy_web-2'' \<in> set (sink (populate example_cluster local_config init))"
proof -
  have a: "sink (populate example_cluster local_config init) =
     [] @ AddHost ''app_web-1'' # tl (sink (populate example_cluster local_config init))"
    by (simp add: example_sink)
  have b: "(''ns1'', web_2) \<in> set (listed (requests (populate example_cluster local_config init))) \<and>
   \<not> sublist ''-build'' (pod_name web_2) \<and> \<lparr>container_name = ''proxy''\<rparr> \<in> set (pod_containers web_2)"
    by (simp add: example_listed) (simp add: web_2_def sublist_code)
  note t = host_group_memberships [of example_cluster local_config "[]" "''app_web-1''"
      "tl (sink (populate example_cluster local_config init))" "''ns1''" web_2
      "\<lparr>container_name = ''proxy''\<rparr>"]
  from t a have f: "\<exists>ns q k vars rest.
      (ns, q) \<in> set (listed (requests (populate example_cluster local_config init))) \<and>
      k \<in> set (pod_containers q) \<and> ''app_web-1'' = container_name k @ ''_'' @ pod_name q \<and>
      length vars = 9 \<and>
      tl (sink (populate example_cluster local_config init)) =
        vars @ [AddGroup ns, AddChild ns ''app_web-1'', AddGroup (pod_name q),
                AddChild (pod_name q) ''app_web-1''] @ rest"
    by blast
  from t b have "AddHost (container_name \<lparr>container_name = ''proxy''\<rparr> @ ''_'' @ pod_name web_2) \<in>
      set (sink (populate example_cluster local_config init)) \<and>
    AddGroup ''ns1'' \<in> set (sink (populate example_cluster local_config init)) \<and>
    AddChild ''ns1'' (container_name \<lparr>container_name = ''proxy''\<rparr> @ ''_'' @ pod_name web_2) \<in>
      set (sink (populate example_cluster local_config init)) \<and>
    AddGroup (pod_name web_2) \<in> set (sink (populate example_cluster local_config init)) \<and>
    AddChild (pod_name web_2) (container_name \<lparr>container_name = ''proxy''\<rparr> @ ''_'' @ pod_name web_2) \<in>
      set (sink (populate example_cluster local_config init))"
    by blast
  then have g: "AddHost ''proxy_web-2'' \<in> set (sink (populate example_cluster local_config init)) \<and>
   AddGroup ''ns1'' \<in> set (sink (populate example_cluster local_config init)) \<and>
   AddChild ''ns1'' ''proxy_web-2'' \<in> set (sink (populate example_cluster local_config init)) \<and>
   AddGroup ''web-2'' \<in> set (sink (populate example_cluster local_config init)) \<and>
   AddChild ''web-2'' ''proxy_web-2'' \<in> set (sink (populate example_cluster local_config init))"
    by (simp add: web_2_def)
  from a f b g show ?thesis by blast
qed

section \<open>Variables of a host\<close>

text \<open>The turn of the context loop that makes an \<^verbatim>\<open>add_host\<close> call, and the block the call
  starts, built from the context of that turn.\<close>

lemma headed_context_calls:
  assumes "\<forall>v\<in>set visits. fst v = c"
  shows "headed is_add_host
     (\<lambda>blk. \<exists>ns p k. (ns, p) \<in> set (concat (map visit_listed visits)) \<and>
         \<not> sublist ''-build'' (pod_name p) \<and> k \<in> set (pod_containers p) \<and>
         blk = container_calls pl ns c p k)
     (concat (map (visit_calls pl) visits))"
proof (rule headed_concat)
  fix v assume v: "v \<in> set visits"
  with assms have "fst v = c" by blast
  with v show "headed is_add_host
     (\<lambda>blk. \<exists>ns p k. (ns, p) \<in> set (concat (map visit_listed visits)) \<and>
         \<not> sublist ''-build'' (pod_name p) \<and> k \<in> set (pod_containers p) \<and>
         blk = container_calls pl ns c p k)
     (visit_calls pl v)"
    by (intro headed_mono [OF headed_visit_calls]) auto
qed

lemma populate_contexts_listed_prefix:
  "prefix (listed (requests st)) (listed (requests (state_of (populate_contexts w cs st))))"
proof -
  obtain visits where
    "listed (requests (state_of (populate_contexts w cs st))) =
       listed (requests st) @ concat (map visit_listed visits)"
    using populate_contexts_visits [of w cs st] by blast
  then show ?thesis by simp
qed

lemma populate_contexts_sink_prefix:
  "prefix (sink st) (sink (state_of (populate_contexts w cs st)))"
proof -
  obtain visits where
    "sink (state_of (populate_contexts w cs st)) =
       sink st @ concat (map (visit_calls (plugin st)) visits)"
    using populate_contexts_visits [of w cs st] by blast
  then show ?thesis by simp
qed

lemma host_in_context:
  assumes "sink (state_of (populate_contexts w cs st)) = pre @ AddHost h # post"
    and "length (sink st) \<le> length pre"
  shows "\<exists>before c after st1 ns p k rest.
           cs = before @ c # after \<and> populate_contexts w before st = Done st1 \<and>
           length (sink st1) \<le> length pre \<and>
           length pre < length (sink (state_of (populate_context w c st1))) \<and>
           (ns, p) \<in> set (listed (requests (state_of (populate_contexts w cs st)))) \<and>
           \<not> sublist ''-build'' (pod_name p) \<and> k \<in> set (pod_containers p) \<and>
           AddHost h # post = container_calls (plugin st) ns c p k @ rest"
  using assms
proof (induction cs arbitrary: st)
  case Nil
  then show ?case by simp
next
  case (Cons c cs)
  let ?s1 = "state_of (populate_context w c st)"
  let ?fin = "state_of (populate_contexts w (c # cs) st)"
  obtain v1 where
    v1: "sink ?s1 = sink st @ concat (map (visit_calls (plugin st)) v1)"
        "listed (requests ?s1) = listed (requests st) @ concat (map visit_listed v1)"
        "plugin ?s1 = plugin st"
        "\<forall>v\<in>set v1. fst v = c"
    using populate_context_visits [of w c st] by blast
  have fin: "prefix (sink ?s1) (sink ?fin)" "prefix (listed (requests ?s1)) (listed (requests ?fin))"
    by (cases "populate_context w c st";
        simp add: populate_contexts_sink_prefix populate_contexts_listed_prefix)+
  show ?case
  proof (cases "length pre < length (sink ?s1)")
    case True
    from fin(1) obtain tail where tail: "sink ?fin = sink ?s1 @ tail"
      by (auto simp: prefix_def)
    with Cons.prems(1) have "sink ?s1 @ tail = pre @ AddHost h # post" by simp
    with True have t: "take (length pre) (sink ?s1) = pre"
      and d: "drop (length pre) (sink ?s1) @ tail = AddHost h # post"
      by (simp_all add: append_eq_append_conv_if)
    define us where "us = drop (length pre) (sink ?s1)"
    from t have "sink ?s1 = pre @ us"
      unfolding us_def by (metis append_take_drop_id)
    moreover from True have "us \<noteq> []"
      unfolding us_def by simp
    moreover from d have "us @ tail = AddHost h # post"
      unfolding us_def .
    ultimately obtain post1 where s1: "sink ?s1 = pre @ AddHost h # post1" "post = post1 @ tail"
      by (cases us) auto
    from s1(1) v1(1) Cons.prems(2) have
      x: "concat (map (visit_calls (plugin st)) v1) =
            drop (length (sink st)) pre @ AddHost h # post1"
      by (simp add: append_eq_append_conv_if)
    have "is_add_host (AddHost h)"
      by (simp add: is_add_host_def)
    with headed_context_calls [OF v1(4), of "plugin st"] x
    have "\<exists>blk rest. (\<exists>ns p k. (ns, p) \<in> set (concat (map visit_listed v1)) \<and>
         \<not> sublist ''-build'' (pod_name p) \<and> k \<in> set (pod_containers p) \<and>
         blk = container_calls (plugin st) ns c p k) \<and> AddHost h # post1 = blk @ rest"
      unfolding headed_def by blast
    then obtain ns p k rest where
      b: "(ns, p) \<in> set (concat (map visit_listed v1))"
         "\<not> sublist ''-build'' (pod_name p)" "k \<in> set (pod_containers p)"
         "AddHost h # post1 = container_calls (plugin st) ns c p k @ rest"
      by blast
    from b(1) v1(2) have "(ns, p) \<in> set (listed (requests ?s1))"
      by simp
    moreover from fin(2) have "set (listed (requests ?s1)) \<subseteq> set (listed (requests ?fin))"
      by (rule set_mono_prefix)
    ultimately have l: "(ns, p) \<in> set (listed (requests ?fin))"
      by blast
    from b(4) s1(2) have "AddHost h # post = container_calls (plugin st) ns c p k @ (rest @ tail)"
      by simp
    with l b(2,3) True Cons.prems(2)
    have "c # cs = [] @ c # cs \<and> populate_contexts w [] st = Done st \<and>
           length (sink st) \<le> length pre \<and>
           length pre < length (sink (state_of (populate_context w c st))) \<and>
           (ns, p) \<in> set (listed (requests ?fin)) \<and>
           \<not> sublist ''-build'' (pod_name p) \<and> k \<in> set (pod_containers p) \<and>
           AddHost h # post = container_calls (plugin st) ns c p k @ (rest @ tail)"
      by simp
    then show ?thesis by blast
  next
    case False
    show ?thesis
    proof (cases "populate_context w c st")
      case (Raised e s1)
      with Cons.prems(1) False show ?thesis by simp
    next
      case (Done s1)
      then have run: "populate_contexts w (c # cs) st = populate_contexts w cs s1"
        and s1: "?s1 = s1"
        by simp_all
      from Cons.prems(1) have a: "sink (state_of (populate_contexts w cs s1)) = pre @ AddHost h # post"
        unfolding run .
      from False s1 have "length (sink s1) \<le> length pre" by simp
      from Cons.IH [OF a this] obtain before c' after st1 ns p k rest where
        i: "cs = before @ c' # after" "populate_contexts w before s1 = Done st1"
           "length (sink st1) \<le> length pre"
           "length pre < length (sink (state_of (populate_context w c' st1)))"
           "(ns, p) \<in> set (listed (requests (state_of (populate_contexts w cs s1))))"
           "\<not> sublist ''-build'' (pod_name p)" "k \<in> set (pod_containers p)"
           "AddHost h # post = container_calls (plugin s1) ns c' p k @ rest"
        by blast
      from v1(3) s1 have pl: "plugin s1 = plugin st" by simp
      from i Done pl
      have "c # cs = (c # before) @ c' # after \<and> populate_contexts w (c # before) st = Done st1 \<and>
           length (sink st1) \<le> length pre \<and>
           length pre < length (sink (state_of (populate_context w c' st1))) \<and>
           (ns, p) \<in> set (listed (requests (state_of (populate_contexts w (c # cs) st)))) \<and>
           \<not> sublist ''-build'' (pod_name p) \<and> k \<in> set (pod_containers p) \<and>
           AddHost h # post = container_calls (plugin st) ns c' p k @ rest"
        by simp
      then show ?thesis by blast
    qed
  qed
qed

lemma variable_keys_container_calls:
  "SetVariable h k v \<in> set (container_calls pl ns ctx p c) \<Longrightarrow>
     k \<in> set [''ansible_host'', ''ansible_connection'', ''ansible_user'', ''ansible_password'',
       ''ansible_kubernetes_port'', ''ansible_kubernetes_cluster'', ''ansible_kube_namespace'',
       ''ansible_kube_config_file'', ''ansible_kube_container'']"
  by (auto simp: container_calls_def Let_def)

lemma variable_keys_visit_calls:
  "SetVariable h k v \<in> set (visit_calls pl x) \<Longrightarrow>
     k \<in> set [''ansible_host'', ''ansible_connection'', ''ansible_user'', ''ansible_password'',
       ''ansible_kubernetes_port'', ''ansible_kubernetes_cluster'', ''ansible_kube_namespace'',
       ''ansible_kube_config_file'', ''ansible_kube_container'']"
proof (cases x)
  case (fields ctx ns items es)
  assume "SetVariable h k v \<in> set (visit_calls pl x)"
  with fields obtain p where "SetVariable h k v \<in> set (pod_calls pl ns ctx p)"
    by (auto simp: no_variable_endpoints_calls)
  then obtain c where "SetVariable h k v \<in> set (container_calls pl ns ctx p c)"
    by (auto simp: pod_calls_def label_calls_def split: if_splits)
  then show ?thesis by (rule variable_keys_container_calls)
qed

lemma two_clusters_sink:
  "sink (populate two_clusters two_clusters_config init) =
     [AddHost ''app_web-1'',
      SetVariable ''app_web-1'' ''ansible_host'' (VStr ''web-1''),
      SetVariable ''app_web-1'' ''ansible_connection'' (VStr ''kubectl''),
      SetVariable ''app_web-1'' ''ansible_user'' VNone,
      SetVariable ''app_web-1'' ''ansible_password'' VNone,
      SetVariable ''app_web-1'' ''ansible_kubernetes_port'' (VInt 8443),
      SetVariable ''app_web-1'' ''ansible_kubernetes_cluster'' VNone,
      SetVariable ''app_web-1'' ''ansible_kube_namespace'' (VStr ''ns1''),
      SetVariable ''app_web-1'' ''ansible_kube_config_file'' VNone,
      SetVariable ''app_web-1'' ''ansible_kube_container'' (VStr ''app''),
      AddGroup ''ns1'',
      AddChild ''ns1'' ''app_web-1'',
      AddGroup ''web-1'',
      AddChild ''web-1'' ''app_web-1'',
      AddGroup ''app_web'',
      AddChild ''app_web'' ''web-1'',
      AddHost ''app_web-1'',
      SetVariable ''app_web-1'' ''ansible_host'' (VStr ''web-1''),
      SetVariable ''app_web-1'' ''ansible_connection'' (VStr ''kubectl''),
      SetVariable ''app_web-1'' ''ansible_user'' (VStr ''admin''),
      SetVariable ''app_web-1'' ''ansible_password'' (VStr ''secret''),
      SetVariable ''app_web-1'' ''ansible_kubernetes_port'' (VInt 6443),
      SetVariable ''app_web-1'' ''ansible_kubernetes_cluster'' (VStr ''api.example.com''),
      SetVariable ''app_web-1'' ''ansible_kube_namespace'' (VStr ''ns1''),
      SetVariable ''app_web-1'' ''ansible_kube_config_file'' VNone,
      SetVariable ''app_web-1'' ''ansible_kube_container'' (VStr ''app''),
      AddGroup ''ns1'',
      AddChild ''ns1'' ''app_web-1'',
      AddGroup ''web-1'',
      AddChild ''web-1'' ''app_web-1'',
      AddGroup ''app_shop'',
      AddChild ''app_shop'' ''web-1'']"
  by (simp add: two_clusters_def two_clusters_config_def local_context_def token_context_def
      web_1_def other_web_1_def run_defs generate_kubernetes_config_def sublist_code)

lemma two_clusters_first_turn:
  "length (sink (state_of (populate_context two_clusters local_context
      (init\<lparr>plugin := get_plugin two_clusters_config\<rparr>)))) = 16"
  by (simp add: two_clusters_def two_clusters_config_def local_context_def
      web_1_def other_web_1_def run_defs sublist_code)

text \<open>
  C8. Every \<^verbatim>\<open>add_host\<close> call of a run is made in the turn of the loop for one of the
  configured contexts: the contexts before it have completed, and the call lies among
  those this turn adds to theirs. The call is followed by exactly nine \<^verbatim>\<open>set_variable\<close>
  calls for the same host, with the values read from the pod, the container, the
  namespace, the configuration (the plugin name, \<open>kubernetes\<close> when the key is missing)
  and the context of that turn (the port 8443 when the key is missing, \<^verbatim>\<open>None\<close> for every
  other missing key); the call after them is an \<^verbatim>\<open>add_group\<close>. No other variable is ever
  set. In the example two contexts create the same host, and the second creation
  carries the user, the token, the port and the server of the second context.
\<close>

theorem host_variables:
  "(sink (populate w config init) = pre @ AddHost h # post \<longrightarrow>
      (\<exists>before ctx after st1 namespace p c rest.
         cfg_contexts config = Some (before @ ctx # after) \<and>
         populate_contexts w before (init\<lparr>plugin := get_plugin config\<rparr>) = Done st1 \<and>
         length (sink st1) \<le> length pre \<and>
         length pre < length (sink (state_of (populate_context w ctx st1))) \<and>
         (namespace, p) \<in> set (listed (requests (populate w config init))) \<and>
         c \<in> set (pod_containers p) \<and> h = container_name c @ ''_'' @ pod_name p \<and>
         post =
           [SetVariable h ''ansible_host'' (VStr (pod_name p)),
            SetVariable h ''ansible_connection''
              (VStr (case cfg_plugin config of None \<Rightarrow> ''kubernetes'' | Some n \<Rightarrow> n)),
            SetVariable h ''ansible_user''
              (case username ctx of None \<Rightarrow> VNone | Some u \<Rightarrow> VStr u),
            SetVariable h ''ansible_password''
              (case token ctx of None \<Rightarrow> VNone | Some t \<Rightarrow> VStr t),
            SetVariable h ''ansible_kubernetes_port''
              (case port ctx of None \<Rightarrow> VInt 8443 | Some n \<Rightarrow> VInt n),
            SetVariable h ''ansible_kubernetes_cluster''
              (case server ctx of None \<Rightarrow> VNone | Some s \<Rightarrow> VStr s),
            SetVariable h ''ansible_kube_namespace'' (VStr namespace),
            SetVariable h ''ansible_kube_config_file''
              (case kubernetes_config_file ctx of None \<Rightarrow> VNone | Some f \<Rightarrow> VStr f),
            SetVariable h ''ansible_kube_container'' (VStr (container_name c))] @
           AddGroup namespace # rest)) \<and>
   (SetVariable h' k v \<in> set (sink (populate w config init)) \<longrightarrow>
      k \<in> set [''ansible_host'', ''ansible_connection'', ''ansible_user'', ''ansible_password'',
        ''ansible_kubernetes_port'', ''ansible_kubernetes_cluster'', ''ansible_kube_namespace'',
        ''ansible_kube_config_file'', ''ansible_kube_container''])"
proof (rule conjI; rule impI)
  assume a: "sink (populate w config init) = pre @ AddHost h # post"
  let ?st0 = "init\<lparr>plugin := get_plugin config\<rparr>"
  obtain cs where cs: "cfg_contexts config = Some cs"
    using a by (cases "cfg_contexts config") (simp_all add: populate_def fail_def Let_def init_def)
  then have f: "sink (populate w config init) = sink (state_of (populate_contexts w cs ?st0))"
      "requests (populate w config init) = requests (state_of (populate_contexts w cs ?st0))"
    by (simp_all add: populate_def Let_def fail_def split: outcome.splits)
  from a f(1) have "sink (state_of (populate_contexts w cs ?st0)) = pre @ AddHost h # post"
    by simp
  moreover have "length (sink ?st0) \<le> length pre"
    by (simp add: init_def)
  ultimately obtain before ctx after st1 ns p c rest where
    b: "cs = before @ ctx # after" "populate_contexts w before ?st0 = Done st1"
       "length (sink st1) \<le> length pre"
       "length pre < length (sink (state_of (populate_context w ctx st1)))"
       "(ns, p) \<in> set (listed (requests (state_of (populate_contexts w cs ?st0))))"
       "c \<in> set (pod_containers p)"
       "AddHost h # post = container_calls (plugin ?st0) ns ctx p c @ rest"
    using host_in_context [of w cs ?st0 pre h post] by blast
  from b(7) have h: "h = container_name c @ ''_'' @ pod_name p"
    by (simp add: container_calls_def Let_def)
  let ?rest = "[AddChild ns h, AddGroup (pod_name p), AddChild (pod_name p) h] @ rest"
  from b(7) h have "post =
           [SetVariable h ''ansible_host'' (VStr (pod_name p)),
            SetVariable h ''ansible_connection''
              (VStr (case cfg_plugin config of None \<Rightarrow> ''kubernetes'' | Some n \<Rightarrow> n)),
            SetVariable h ''ansible_user''
              (case username ctx of None \<Rightarrow> VNone | Some u \<Rightarrow> VStr u),
            SetVariable h ''ansible_password''
              (case token ctx of None \<Rightarrow> VNone | Some t \<Rightarrow> VStr t),
            SetVariable h ''ansible_kubernetes_port''
              (case port ctx of None \<Rightarrow> VInt 8443 | Some n \<Rightarrow> VInt n),
            SetVariable h ''ansible_kubernetes_cluster''
              (case server ctx of None \<Rightarrow> VNone | Some s \<Rightarrow> VStr s),
            SetVariable h ''ansible_kube_namespace'' (VStr ns),
            SetVariable h ''ansible_kube_config_file''
              (case kubernetes_config_file ctx of None \<Rightarrow> VNone | Some f \<Rightarrow> VStr f),
            SetVariable h ''ansible_kube_container'' (VStr (container_name c))] @
           AddGroup ns # ?rest"
    by (simp add: container_calls_def Let_def get_plugin_def opt_str_def)
  moreover from b(1) cs have "cfg_contexts config = Some (before @ ctx # after)"
    by simp
  moreover from b(5) f(2) have "(ns, p) \<in> set (listed (requests (populate w config init)))"
    by simp
  ultimately show "\<exists>before ctx after st1 namespace p c rest.
         cfg_contexts config = Some (before @ ctx # after) \<and>
         populate_contexts w before (init\<lparr>plugin := get_plugin config\<rparr>) = Done st1 \<and>
         length (sink st1) \<le> length pre \<and>
         length pre < length (sink (state_of (populate_context w ctx st1))) \<and>
         (namespace, p) \<in> set (listed (requests (populate w config init))) \<and>
         c \<in> set (pod_containers p) \<and> h = container_name c @ ''_'' @ pod_name p \<and>
         post =
           [SetVariable h ''ansible_host'' (VStr (pod_name p)),
            SetVariable h ''ansible_connection''
              (VStr (case cfg_plugin config of None \<Rightarrow> ''kubernetes'' | Some n \<Rightarrow> n)),
            SetVariable h ''ansible_user''
              (case username ctx of None \<Rightarrow> VNone | Some u \<Rightarrow> VStr u),
            SetVariable h ''ansible_password''
              (case token ctx of None \<Rightarrow> VNone | Some t \<Rightarrow> VStr t),
            SetVariable h ''ansible_kubernetes_port''
              (case port ctx of None \<Rightarrow> VInt 8443 | Some n \<Rightarrow> VInt n),
            SetVariable h ''ansible_kubernetes_cluster''
              (case server ctx of None \<Rightarrow> VNone | Some s \<Rightarrow> VStr s),
            SetVariable h ''ansible_kube_namespace'' (VStr namespace),
            SetVariable h ''ansible_kube_config_file''
              (case kubernetes_config_file ctx of None \<Rightarrow> VNone | Some f \<Rightarrow> VStr f),
            SetVariable h ''ansible_kube_container'' (VStr (container_name c))] @
           AddGroup namespace # rest"
    using b(2,3,4,6) h by blast
next
  assume a: "SetVariable h' k v \<in> set (sink (populate w config init))"
  obtain visits where
    "sink (populate w config init) = sink init @ concat (map (visit_calls (get_plugin config)) visits)"
    using populate_visits [of w config init] by blast
  with a obtain x where "SetVariable h' k v \<in> set (visit_calls (get_plugin config) x)"
    by (auto simp: init_def)
  then show "k \<in> set [''ansible_host'', ''ansible_connection'', ''ansible_user'', ''ansible_password'',
        ''ansible_kubernetes_port'', ''ansible_kubernetes_cluster'', ''ansible_kube_namespace'',
        ''ansible_kube_config_file'', ''ansible_kube_container'']"
    by (rule variable_keys_visit_calls)
qed

theorem host_variables_witness:
  "sink (populate two_clusters two_clusters_config init) =
     take 16 (sink (populate two_clusters two_clusters_config init)) @
       AddHost ''app_web-1'' # drop 17 (sink (populate two_clusters two_clusters_config init)) \<and>
   (\<exists>namespace p c rest.
      (namespace, p) \<in> set (listed (requests (populate two_clusters two_clusters_config init))) \<and>
      c \<in> set (pod_containers p) \<and> ''app_web-1'' = container_name c @ ''_'' @ pod_name p \<and>
      drop 17 (sink (populate two_clusters two_clusters_config init)) =
        [SetVariable ''app_web-1'' ''ansible_host'' (VStr (pod_name p)),
         SetVariable ''app_web-1'' ''ansible_connection'' (VStr ''kubectl''),
         SetVariable ''app_web-1'' ''ansible_user'' (VStr ''admin''),
         SetVariable ''app_web-1'' ''ansible_password'' (VStr ''secret''),
         SetVariable ''app_web-1'' ''ansible_kubernetes_port'' (VInt 6443),
         SetVariable ''app_web-1'' ''ansible_kubernetes_cluster'' (VStr ''api.example.com''),
         SetVariable ''app_web-1'' ''ansible_kube_namespace'' (VStr namespace),
         SetVariable ''app_web-1'' ''ansible_kube_config_file'' VNone,
         SetVariable ''app_web-1'' ''ansible_kube_container'' (VStr (container_name c))] @
        AddGroup namespace # rest) \<and>
   SetVariable ''app_web-1'' ''ansible_kubernetes_port'' (VInt 6443) \<in>
     set (sink (populate two_clusters two_clusters_config init)) \<and>
   ''ansible_kubernetes_port'' \<in>
     set [''ansible_host'', ''ansible_connection'', ''ansible_user'', ''ansible_password'',
       ''ansible_kubernetes_port'', ''ansible_kubernetes_cluster'', ''ansible_kube_namespace'',
       ''ansible_kube_config_file'', ''ansible_kube_container'']"
proof -
  let ?F = "populate two_clusters two_clusters_config init"
  let ?pre = "take 16 (sink ?F)"
  let ?post = "drop 17 (sink ?F)"
  have a: "sink ?F = ?pre @ AddHost ''app_web-1'' # ?post"
    by (simp add: two_clusters_sink)
  have n: "length ?pre = 16"
    by (simp add: two_clusters_sink)
  have v: "SetVariable ''app_web-1'' ''ansible_kubernetes_port'' (VInt 6443) \<in> set (sink ?F)"
    by (simp add: two_clusters_sink)
  note t = host_variables [of two_clusters two_clusters_config ?pre "''app_web-1''" ?post
      "''app_web-1''" "''ansible_kubernetes_port''" "VInt 6443"]
  from t a obtain before ctx after st1 namespace p c rest where
    b: "cfg_contexts two_clusters_config = Some (before @ ctx # after)"
       "populate_contexts two_clusters before (init\<lparr>plugin := get_plugin two_clusters_config\<rparr>) = Done st1"
       "length ?pre < length (sink (state_of (populate_context two_clusters ctx st1)))"
       "(namespace, p) \<in> set (listed (requests ?F))"
       "c \<in> set (pod_containers p)" "''app_web-1'' = container_name c @ ''_'' @ pod_name p"
       "?post =
           [SetVariable ''app_web-1'' ''ansible_host'' (VStr (pod_name p)),
            SetVariable ''app_web-1'' ''ansible_connection''
              (VStr (case cfg_plugin two_clusters_config of None \<Rightarrow> ''kubernetes'' | Some n \<Rightarrow> n)),
            SetVariable ''app_web-1'' ''ansible_user''
              (case username ctx of None \<Rightarrow> VNone | Some u \<Rightarrow> VStr u),
            SetVariable ''app_web-1'' ''ansible_password''
              (case token ctx of None \<Rightarrow> VNone | Some t \<Rightarrow> VStr t),
            SetVariable ''app_web-1'' ''ansible_kubernetes_port''
              (case port ctx of None \<Rightarrow> VInt 8443 | Some n \<Rightarrow> VInt n),
            SetVariable ''app_web-1'' ''ansible_kubernetes_cluster''
              (case server ctx of None \<Rightarrow> VNone | Some s \<Rightarrow> VStr s),
            SetVariable ''app_web-1'' ''ansible_kube_namespace'' (VStr namespace),
            SetVariable ''app_web-1'' ''ansible_kube_config_file''
              (case kubernetes_config_file ctx of None \<Rightarrow> VNone | Some f \<Rightarrow> VStr f),
            SetVariable ''app_web-1'' ''ansible_kube_container'' (VStr (container_name c))] @
           AddGroup namespace # rest"
    by blast
  from b(1) consider "before = []" "ctx = local_context" | "before = [local_context]" "ctx = token_context"
    by (auto simp: two_clusters_config_def append_eq_Cons_conv Cons_eq_append_conv)
  then have c: "ctx = token_context"
  proof cases
    case 1
    with b(2) have "st1 = init\<lparr>plugin := get_plugin two_clusters_config\<rparr>" by simp
    with 1 b(3) n two_clusters_first_turn show ?thesis by simp
  next
    case 2
    then show ?thesis by simp
  qed
  from b(7) have "?post =
        [SetVariable ''app_web-1'' ''ansible_host'' (VStr (pod_name p)),
         SetVariable ''app_web-1'' ''ansible_connection'' (VStr ''kubectl''),
         SetVariable ''app_web-1'' ''ansible_user'' (VStr ''admin''),
         SetVariable ''app_web-1'' ''ansible_password'' (VStr ''secret''),
         SetVariable ''app_web-1'' ''ansible_kubernetes_port'' (VInt 6443),
         SetVariable ''app_web-1'' ''ansible_kubernetes_cluster'' (VStr ''api.example.com''),
         SetVariable ''app_web-1'' ''ansible_kube_namespace'' (VStr namespace),
         SetVariable ''app_web-1'' ''ansible_kube_config_file'' VNone,
         SetVariable ''app_web-1'' ''ansible_kube_container'' (VStr (container_name c))] @
        AddGroup namespace # rest"
    unfolding c by (simp add: token_context_def two_clusters_config_def)
  with b(4,5,6) have e: "\<exists>namespace p c rest.
      (namespace, p) \<in> set (listed (requests ?F)) \<and>
      c \<in> set (pod_containers p) \<and> ''app_web-1'' = container_name c @ ''_'' @ pod_name p \<and>
      ?post =
        [SetVariable ''app_web-1'' ''ansible_host'' (VStr (pod_name p)),
         SetVariable ''app_web-1'' ''ansible_connection'' (VStr ''kubectl''),
         SetVariable ''app_web-1'' ''ansible_user'' (VStr ''admin''),
         SetVariable ''app_web-1'' ''ansible_password'' (VStr ''secret''),
         SetVariable ''app_web-1'' ''ansible_kubernetes_port'' (VInt 6443),
         SetVariable ''app_web-1'' ''ansible_kubernetes_cluster'' (VStr ''api.example.com''),
         SetVariable ''app_web-1'' ''ansible_kube_namespace'' (VStr namespace),
         SetVariable ''app_web-1'' ''ansible_kube_config_file'' VNone,
         SetVariable ''app_web-1'' ''ansible_kube_container'' (VStr (container_name c))] @
        AddGroup namespace # rest"
    by blast
  from t v have k: "''ansible_kubernetes_port'' \<in>
     set [''ansible_host'', ''ansible_connection'', ''ansible_user'', ''ansible_password'',
       ''ansible_kubernetes_port'', ''ansible_kubernetes_cluster'', ''ansible_kube_namespace'',
       ''ansible_kube_config_file'', ''ansible_kube_container'']"
    by blast
  from a e v k show ?thesis by blast
qed

section \<open>Groups before children\<close>

lemma groups_first_Nil [simp]: "groups_first []"
  by (simp add: groups_first_def)

lemma groups_first_append:
  assumes "groups_first xs" and "groups_first ys"
  shows "groups_first (xs @ ys)"
  unfolding groups_first_def
proof (intro allI impI)
  fix pre g c post
  assume "xs @ ys = pre @ AddChild g c # post"
  then consider u where "xs = pre @ u" "u @ ys = AddChild g c # post"
    | u where "xs @ u = pre" "ys = u @ AddChild g c # post"
    by (auto simp: append_eq_append_conv2)
  then show "AddGroup g \<in> set pre"
  proof cases
    case 1
    show ?thesis
    proof (cases u)
      case Nil
      with 1 have "ys = [] @ AddChild g c # post" by simp
      with assms(2) show ?thesis unfolding groups_first_def by fastforce
    next
      case (Cons b u')
      with 1 have "xs = pre @ AddChild g c # u'" by simp
      with assms(1) show ?thesis unfolding groups_first_def by blast
    qed
  next
    case 2
    with assms(2) have "AddGroup g \<in> set u" unfolding groups_first_def by blast
    with 2 show ?thesis by auto
  qed
qed

lemma groups_first_concat:
  "(\<And>x. x \<in> set xs \<Longrightarrow> groups_first (f x)) \<Longrightarrow> groups_first (concat (map f xs))"
  by (induction xs) (simp_all add: groups_first_append)

lemma groups_first_children:
  assumes "\<forall>a\<in>set tail. \<exists>c. a = AddChild n c"
  shows "groups_first (AddGroup n # tail)"
  unfolding groups_first_def
proof (intro allI impI)
  fix pre g c post
  assume e: "AddGroup n # tail = pre @ AddChild g c # post"
  then obtain pre' where p: "pre = AddGroup n # pre'" "tail = pre' @ AddChild g c # post"
    by (cases pre) auto
  then have "AddChild g c \<in> set tail" by simp
  with assms have "g = n" by auto
  with p show "AddGroup g \<in> set pre" by simp
qed

lemma groups_first_no_child: "\<forall>a\<in>set xs. \<forall>g c. a \<noteq> AddChild g c \<Longrightarrow> groups_first xs"
  unfolding groups_first_def by auto

lemma groups_first_label_calls: "groups_first (label_calls p kv)"
  unfolding label_calls_def by (rule groups_first_children) simp

lemma groups_first_container_calls: "groups_first (container_calls pl ns ctx p c)"
proof -
  let ?h = "container_name c @ ''_'' @ pod_name p"
  have "groups_first (take 10 (container_calls pl ns ctx p c))"
    by (rule groups_first_no_child) (simp add: container_calls_def Let_def)
  moreover have "groups_first [AddGroup ns, AddChild ns ?h]"
    by (rule groups_first_children) simp
  moreover have "groups_first [AddGroup (pod_name p), AddChild (pod_name p) ?h]"
    by (rule groups_first_children) simp
  ultimately have "groups_first (take 10 (container_calls pl ns ctx p c) @
      [AddGroup ns, AddChild ns ?h] @ [AddGroup (pod_name p), AddChild (pod_name p) ?h])"
    by (intro groups_first_append)
  then show ?thesis by (simp add: container_calls_def Let_def)
qed

lemma groups_first_endpoints_calls: "groups_first (endpoints_calls e)"
  unfolding endpoints_calls_def
  by (rule groups_first_children) (auto simp: address_calls_def split: option.splits if_splits)

lemma groups_first_pod_calls: "groups_first (pod_calls pl ns ctx p)"
  unfolding pod_calls_def
  by (simp add: groups_first_append groups_first_concat groups_first_label_calls
      groups_first_container_calls)

lemma groups_first_visit_calls: "groups_first (visit_calls pl v)"
  by (cases v)
     (simp add: groups_first_append groups_first_concat groups_first_pod_calls
        groups_first_endpoints_calls)

lemma groups_first_populate: "groups_first (sink (populate w config init))"
proof -
  obtain visits where
    "sink (populate w config init) = sink init @ concat (map (visit_calls (get_plugin config)) visits)"
    using populate_visits [of w config init] by blast
  then show ?thesis
    by (simp add: init_def groups_first_concat groups_first_visit_calls)
qed

text \<open>The calls for an endpoints object, as a comprehension over its addresses.\<close>

lemma address_calls_comprehension:
  "concat (map (address_calls n) as) =
     [AddChild n (ref_name r).
        a \<leftarrow> as, r \<leftarrow> (case target_ref a of None \<Rightarrow> [] | Some r \<Rightarrow> [r]),
        sublist ''Pod'' (ref_kind r)]"
  by (induction as) (simp_all add: address_calls_def split: option.splits)

lemma endpoints_calls_comprehension:
  "endpoints_calls e =
     AddGroup (endpoints_name e) #
     [AddChild (endpoints_name e) (ref_name r).
        s \<leftarrow> subsets e, a \<leftarrow> addresses s,
        r \<leftarrow> (case target_ref a of None \<Rightarrow> [] | Some r \<Rightarrow> [r]),
        sublist ''Pod'' (ref_kind r)]"
  by (simp add: endpoints_calls_def address_calls_comprehension)

text \<open>
  C10. In every run each \<^verbatim>\<open>add_child\<close> call for a group comes after an \<^verbatim>\<open>add_group\<close> call
  for the same group. The namespace, pod and label groups are filled through
  \<^verbatim>\<open>_groupadd\<close>, which calls \<^verbatim>\<open>add_group\<close> immediately before \<^verbatim>\<open>add_child\<close>; for an endpoints
  object the group is created once, before the loops over its addresses, and every
  child added there is a child of that group.
\<close>

theorem group_before_child:
  "(sink (populate w config init) = pre @ AddChild g c # post \<longrightarrow> AddGroup g \<in> set pre) \<and>
   sink (groupadd group_name child_name st) =
     sink st @ [AddGroup group_name, AddChild group_name child_name] \<and>
   (\<exists>children. sink (service_endpoints [e] st) =
      sink st @ AddGroup (endpoints_name e) # map (AddChild (endpoints_name e)) children)"
proof (intro conjI impI)
  assume "sink (populate w config init) = pre @ AddChild g c # post"
  with groups_first_populate [of w config] show "AddGroup g \<in> set pre"
    unfolding groups_first_def by blast
next
  show "sink (groupadd group_name child_name st) =
     sink st @ [AddGroup group_name, AddChild group_name child_name]"
    by (simp add: groupadd_def add_group_def add_child_def)
next
  have "sink (service_endpoints [e] st) = sink st @ endpoints_calls e"
    by (simp add: service_subsets_sink add_group_def endpoints_calls_def)
  then have "sink (service_endpoints [e] st) =
      sink st @ AddGroup (endpoints_name e) # map (AddChild (endpoints_name e))
        [ref_name r. s \<leftarrow> subsets e, a \<leftarrow> addresses s,
           r \<leftarrow> (case target_ref a of None \<Rightarrow> [] | Some r \<Rightarrow> [r]),
           sublist ''Pod'' (ref_kind r)]"
    by (simp add: endpoints_calls_comprehension map_concat comp_def if_distrib [of "map _"] cong: if_cong)
  then show "\<exists>children. sink (service_endpoints [e] st) =
      sink st @ AddGroup (endpoints_name e) # map (AddChild (endpoints_name e)) children"
    by blast
qed

theorem group_before_child_witness:
  "sink (populate example_cluster local_config init) =
     butlast (sink (populate example_cluster local_config init)) @
       AddChild ''web-svc'' ''web-template'' # [] \<and>
   AddGroup ''web-svc'' \<in> set (butlast (sink (populate example_cluster local_config init)))"
proof -
  have a: "sink (populate example_cluster local_config init) =
     butlast (sink (populate example_cluster local_config init)) @
       AddChild ''web-svc'' ''web-template'' # []"
    by (simp add: example_sink)
  from group_before_child [of example_cluster local_config
      "butlast (sink (populate example_cluster local_config init))" "''web-svc''"
      "''web-template''" "[]"] a
  show ?thesis by blast
qed

section \<open>Service groups\<close>

text \<open>
  C6. When the endpoints of a namespace are listed, the inventory receives, for each
  endpoints object in turn, \<^verbatim>\<open>add_group\<close> for its name and then, for every address of
  every subset in order, \<^verbatim>\<open>add_child\<close> of \<open>target_ref.name\<close> to that group exactly when the
  address has a \<open>target_ref\<close> whose kind contains \<open>Pod\<close>; every other address is skipped
  and no error is reported. The test of line 232 is \<^verbatim>\<open>"Pod" in a.target_ref.kind\<close>, so
  a kind such as \<open>PodTemplate\<close> is taken too, as the example after the theorem shows. When
  the listing fails, the error is reported and the inventory receives nothing.
\<close>

theorem service_groups:
  "(api st = Some a \<and> list_namespaced_endpoints w a namespace = Inr items \<longrightarrow>
      sink (kube_service_group w namespace st) =
        sink st @
        concat (map (\<lambda>e. AddGroup (endpoints_name e) #
            [AddChild (endpoints_name e) (ref_name r).
               s \<leftarrow> subsets e, a \<leftarrow> addresses s,
               r \<leftarrow> (case target_ref a of None \<Rightarrow> [] | Some r \<Rightarrow> [r]),
               sublist ''Pod'' (ref_kind r)]) items) \<and>
      errors (kube_service_group w namespace st) = errors st) \<and>
   (api st = Some a \<and> list_namespaced_endpoints w a namespace = Inl e \<longrightarrow>
      sink (kube_service_group w namespace st) = sink st \<and>
      errors (kube_service_group w namespace st) = errors st @ [message e])"
proof (rule conjI; rule impI)
  assume a: "api st = Some a \<and> list_namespaced_endpoints w a namespace = Inr items"
  then have "listed_endpoints w namespace st = items"
    by (simp add: listed_endpoints_def)
  then have "sink (kube_service_group w namespace st) = sink st @ concat (map endpoints_calls items)"
    by (simp add: kube_service_group_sink)
  moreover have "endpoints_calls = (\<lambda>e. AddGroup (endpoints_name e) #
            [AddChild (endpoints_name e) (ref_name r).
               s \<leftarrow> subsets e, a \<leftarrow> addresses s,
               r \<leftarrow> (case target_ref a of None \<Rightarrow> [] | Some r \<Rightarrow> [r]),
               sublist ''Pod'' (ref_kind r)])"
    by (rule ext) (rule endpoints_calls_comprehension)
  moreover have "errors (kube_service_group w namespace st) = errors st"
    using a by (simp add: kube_service_group_def Let_def)
  ultimately show "sink (kube_service_group w namespace st) =
        sink st @
        concat (map (\<lambda>e. AddGroup (endpoints_name e) #
            [AddChild (endpoints_name e) (ref_name r).
               s \<leftarrow> subsets e, a \<leftarrow> addresses s,
               r \<leftarrow> (case target_ref a of None \<Rightarrow> [] | Some r \<Rightarrow> [r]),
               sublist ''Pod'' (ref_kind r)]) items) \<and>
      errors (kube_service_group w namespace st) = errors st"
    by simp
next
  assume "api st = Some a \<and> list_namespaced_endpoints w a namespace = Inl e"
  then show "sink (kube_service_group w namespace st) = sink st \<and>
      errors (kube_service_group w namespace st) = errors st @ [message e]"
    by (simp add: kube_service_group_def Let_def fail_def)
qed
theorem service_groups_witness:
  "api (init\<lparr>api := Some 1\<rparr>) = Some 1 \<and>
   list_namespaced_endpoints example_cluster 1 ''ns1'' = Inr [web_svc] \<and>
   sink (kube_service_group example_cluster ''ns1'' (init\<lparr>api := Some 1\<rparr>)) =
     [AddGroup ''web-svc'', AddChild ''web-svc'' ''web-1'', AddChild ''web-svc'' ''web-template''] \<and>
   errors (kube_service_group example_cluster ''ns1'' (init\<lparr>api := Some 1\<rparr>)) = [] \<and>
   list_namespaced_endpoints example_cluster 1 ''ns2'' = Inl (ApiException ''endpoints is forbidden'') \<and>
   sink (kube_service_group example_cluster ''ns2'' (init\<lparr>api := Some 1\<rparr>)) = [] \<and>
   errors (kube_service_group example_cluster ''ns2'' (init\<lparr>api := Some 1\<rparr>)) =
     [''endpoints is forbidden'']"
proof -
  have a: "api (init\<lparr>api := Some 1\<rparr>) = Some 1 \<and>
      list_namespaced_endpoints example_cluster 1 ''ns1'' = Inr [web_svc]"
    by (simp add: example_cluster_def)
  have b: "api (init\<lparr>api := Some 1\<rparr>) = Some 1 \<and>
      list_namespaced_endpoints example_cluster 1 ''ns2'' = Inl (ApiException ''endpoints is forbidden'')"
    by (simp add: example_cluster_def)
  from service_groups [of "init\<lparr>api := Some 1\<rparr>" 1 example_cluster "''ns1''" "[web_svc]"] a
  have "sink (kube_service_group example_cluster ''ns1'' (init\<lparr>api := Some 1\<rparr>)) =
     [AddGroup ''web-svc'', AddChild ''web-svc'' ''web-1'', AddChild ''web-svc'' ''web-template'']"
    and "errors (kube_service_group example_cluster ''ns1'' (init\<lparr>api := Some 1\<rparr>)) = []"
    by (simp_all add: web_svc_def init_def sublist_code)
  moreover
  from service_groups [of "init\<lparr>api := Some 1\<rparr>" 1 example_cluster "''ns2''" _
      "ApiException ''endpoints is forbidden''"] b
  have "sink (kube_service_group example_cluster ''ns2'' (init\<lparr>api := Some 1\<rparr>)) = []"
    and "errors (kube_service_group example_cluster ''ns2'' (init\<lparr>api := Some 1\<rparr>)) =
       [''endpoints is forbidden'']"
    by (simp_all add: init_def)
  ultimately show ?thesis using a b by simp
qed

theorem service_groups_counterexample:
  "\<lparr>target_ref = Some \<lparr>ref_kind = ''PodTemplate'', ref_name = ''web-template''\<rparr>\<rparr> \<in>
     set (concat (map addresses (subsets web_svc))) \<and>
   ''PodTemplate'' \<noteq> ''Pod'' \<and>
   list_namespaced_endpoints example_cluster 1 ''ns1'' = Inr [web_svc] \<and>
   AddChild ''web-svc'' ''web-template'' \<in>
     set (sink (kube_service_group example_cluster ''ns1'' (init\<lparr>api := Some 1\<rparr>)))"
  by (simp add: example_cluster_def web_svc_def kube_service_group_def add_group_def
      add_child_def init_def Let_def sublist_code)

section \<open>Connecting\<close>

lemma str_6443: "str_int 6443 = ''6443''"
  by (simp add: str_int_def digits.simps)

text \<open>
  C9. \<^verbatim>\<open>_connect\<close> takes the first strategy that applies. When \<open>local_kube_config\<close> is true
  it loads the default local credentials, whatever the other keys say. Otherwise, when
  \<open>kubernetes_config_file\<close> is set (and not the empty string, which Python takes for
  false), it loads that file. Otherwise it builds a credentials dictionary and loads it:
  one cluster entry named \<open>server:port\<close> with \<open>insecure-skip-tls-verify\<close> set, one context
  entry binding that cluster, the first namespace of the context and the user
  \<open>username/server:port\<close>, and one user entry of that name carrying the token; the
  context entry is the active one.
\<close>

theorem connect_strategies:
  "(local_kube_config c = Some True \<longrightarrow>
      requests (connect w c st) = requests st @ [LoadKubeConfig None (load_kube_config w None)]) \<and>
   (local_kube_config c \<noteq> Some True \<and> kubernetes_config_file c = Some f \<and> f \<noteq> [] \<longrightarrow>
      requests (connect w c st) =
        requests st @ [LoadKubeConfig (Some f) (load_kube_config w (Some f))]) \<and>
   (local_kube_config c \<noteq> Some True \<and>
    (kubernetes_config_file c = None \<or> kubernetes_config_file c = Some []) \<and>
    namespaces c = Some (namespace0 # rest) \<longrightarrow>
      (\<exists>k. requests (connect w c st) =
             requests st @ [LoadAndSet k (current_context k) (load_and_set w k (current_context k))] \<and>
           clusters k =
             [\<lparr>cluster = \<lparr>insecure_skip_tls_verify = ''true'',
                  cluster_server = ''https://'' @ format_str (server c) @ '':'' @ format_int (port c)\<rparr>,
               cluster_name = format_str (server c) @ '':'' @ format_int (port c)\<rparr>] \<and>
           contexts k =
             [\<lparr>context_of = \<lparr>context_cluster = format_str (server c) @ '':'' @ format_int (port c),
                  context_namespace = namespace0,
                  context_user = format_str (username c) @ ''/'' @
                    format_str (server c) @ '':'' @ format_int (port c)\<rparr>,
               context_name = current_context k\<rparr>] \<and>
           users k =
             [\<lparr>user_name = format_str (username c) @ ''/'' @
                  format_str (server c) @ '':'' @ format_int (port c),
               user_of = \<lparr>user_token = token c\<rparr>\<rparr>]))"
proof (intro conjI impI)
  assume "local_kube_config c = Some True"
  then show "requests (connect w c st) = requests st @ [LoadKubeConfig None (load_kube_config w None)]"
    by (simp add: connect_def connect_body_def truthy_bool_def Let_def fail_def split: sum.splits)
next
  assume "local_kube_config c \<noteq> Some True \<and> kubernetes_config_file c = Some f \<and> f \<noteq> []"
  then show "requests (connect w c st) =
        requests st @ [LoadKubeConfig (Some f) (load_kube_config w (Some f))]"
    by (simp add: connect_def connect_body_def truthy_bool_def truthy_str_def Let_def fail_def split: sum.splits)
next
  assume a: "local_kube_config c \<noteq> Some True \<and>
    (kubernetes_config_file c = None \<or> kubernetes_config_file c = Some []) \<and>
    namespaces c = Some (namespace0 # rest)"
  then have t: "\<not> truthy_bool (local_kube_config c)" "\<not> truthy_str (kubernetes_config_file c)"
    by (auto simp: truthy_bool_def truthy_str_def)
  obtain k active where g: "generate_kubernetes_config c = Inr (k, active)"
    using a by (simp add: generate_kubernetes_config_def Let_def)
  then have k: "active = current_context k"
      "clusters k =
         [\<lparr>cluster = \<lparr>insecure_skip_tls_verify = ''true'',
              cluster_server = ''https://'' @ format_str (server c) @ '':'' @ format_int (port c)\<rparr>,
           cluster_name = format_str (server c) @ '':'' @ format_int (port c)\<rparr>]"
      "contexts k =
         [\<lparr>context_of = \<lparr>context_cluster = format_str (server c) @ '':'' @ format_int (port c),
              context_namespace = namespace0,
              context_user = format_str (username c) @ ''/'' @
                format_str (server c) @ '':'' @ format_int (port c)\<rparr>,
           context_name = current_context k\<rparr>]"
      "users k =
         [\<lparr>user_name = format_str (username c) @ ''/'' @
              format_str (server c) @ '':'' @ format_int (port c),
           user_of = \<lparr>user_token = token c\<rparr>\<rparr>]"
    using a by (auto simp: generate_kubernetes_config_def Let_def)
  have "requests (connect w c st) =
      requests st @ [LoadAndSet k (current_context k) (load_and_set w k (current_context k))]"
    using t g k(1) by (simp add: connect_def connect_body_def Let_def fail_def split: sum.splits)
  with k(2,3,4) show "\<exists>k. requests (connect w c st) =
             requests st @ [LoadAndSet k (current_context k) (load_and_set w k (current_context k))] \<and>
           clusters k =
             [\<lparr>cluster = \<lparr>insecure_skip_tls_verify = ''true'',
                  cluster_server = ''https://'' @ format_str (server c) @ '':'' @ format_int (port c)\<rparr>,
               cluster_name = format_str (server c) @ '':'' @ format_int (port c)\<rparr>] \<and>
           contexts k =
             [\<lparr>context_of = \<lparr>context_cluster = format_str (server c) @ '':'' @ format_int (port c),
                  context_namespace = namespace0,
                  context_user = format_str (username c) @ ''/'' @
                    format_str (server c) @ '':'' @ format_int (port c)\<rparr>,
               context_name = current_context k\<rparr>] \<and>
           users k =
             [\<lparr>user_name = format_str (username c) @ ''/'' @
                  format_str (server c) @ '':'' @ format_int (port c),
               user_of = \<lparr>user_token = token c\<rparr>\<rparr>]"
    by blast
qed

theorem connect_strategies_witness:
  "local_kube_config local_context = Some True \<and>
   requests (connect example_cluster local_context init) = [LoadKubeConfig None (Inr 1)] \<and>
   local_kube_config file_context \<noteq> Some True \<and>
   kubernetes_config_file file_context = Some ''/etc/kube/missing.yaml'' \<and>
   requests (connect example_cluster file_context init) =
     [LoadKubeConfig (Some ''/etc/kube/missing.yaml'')
        (Inl (ConfigException ''Invalid kube-config file''))] \<and>
   local_kube_config token_context \<noteq> Some True \<and> kubernetes_config_file token_context = None \<and>
   namespaces token_context = Some (''ns1'' # [''ns2'']) \<and>
   (\<exists>k. requests (connect example_cluster token_context init) =
          [LoadAndSet k ''ns1/api.example.com:6443/admin'' (Inr 3)] \<and>
        current_context k = ''ns1/api.example.com:6443/admin'' \<and>
        clusters k =
          [\<lparr>cluster = \<lparr>insecure_skip_tls_verify = ''true'',
               cluster_server = ''https://api.example.com:6443''\<rparr>,
            cluster_name = ''api.example.com:6443''\<rparr>] \<and>
        contexts k =
          [\<lparr>context_of = \<lparr>context_cluster = ''api.example.com:6443'',
               context_namespace = ''ns1'',
               context_user = ''admin/api.example.com:6443''\<rparr>,
            context_name = ''ns1/api.example.com:6443/admin''\<rparr>] \<and>
        users k =
          [\<lparr>user_name = ''admin/api.example.com:6443'',
            user_of = \<lparr>user_token = Some ''secret''\<rparr>\<rparr>])"
proof -
  have l: "local_kube_config local_context = Some True"
    by (simp add: local_context_def)
  have f: "local_kube_config file_context \<noteq> Some True \<and>
      kubernetes_config_file file_context = Some ''/etc/kube/missing.yaml'' \<and>
      ''/etc/kube/missing.yaml'' \<noteq> []"
    by (simp add: file_context_def)
  have t: "local_kube_config token_context \<noteq> Some True \<and>
      (kubernetes_config_file token_context = None \<or> kubernetes_config_file token_context = Some []) \<and>
      namespaces token_context = Some (''ns1'' # [''ns2''])"
    by (simp add: token_context_def)
  from connect_strategies [of local_context example_cluster init] l
  have 1: "requests (connect example_cluster local_context init) = [LoadKubeConfig None (Inr 1)]"
    by (simp add: example_cluster_def init_def)
  from connect_strategies [of file_context example_cluster init "''/etc/kube/missing.yaml''"] f
  have 2: "requests (connect example_cluster file_context init) =
     [LoadKubeConfig (Some ''/etc/kube/missing.yaml'')
        (Inl (ConfigException ''Invalid kube-config file''))]"
    by (simp add: example_cluster_def init_def)
  from connect_strategies [of token_context example_cluster init _ "''ns1''" "[''ns2'']"] t
  obtain k where k: "requests (connect example_cluster token_context init) =
             requests init @ [LoadAndSet k (current_context k) (load_and_set example_cluster k (current_context k))]"
           "clusters k =
             [\<lparr>cluster = \<lparr>insecure_skip_tls_verify = ''true'',
                  cluster_server = ''https://'' @ format_str (server token_context) @ '':'' @ format_int (port token_context)\<rparr>,
               cluster_name = format_str (server token_context) @ '':'' @ format_int (port token_context)\<rparr>]"
           "contexts k =
             [\<lparr>context_of = \<lparr>context_cluster = format_str (server token_context) @ '':'' @ format_int (port token_context),
                  context_namespace = ''ns1'',
                  context_user = format_str (username token_context) @ ''/'' @
                    format_str (server token_context) @ '':'' @ format_int (port token_context)\<rparr>,
               context_name = current_context k\<rparr>]"
           "users k =
             [\<lparr>user_name = format_str (username token_context) @ ''/'' @
                  format_str (server token_context) @ '':'' @ format_int (port token_context),
               user_of = \<lparr>user_token = token token_context\<rparr>\<rparr>]"
    by blast
  have c: "current_context k = ''ns1/api.example.com:6443/admin''"
    using k(1)
    by (simp add: connect_def connect_body_def generate_kubernetes_config_def token_context_def truthy_bool_def
        truthy_str_def Let_def format_str_def format_int_def str_6443 init_def example_cluster_def)
  have 3: "requests (connect example_cluster token_context init) =
          [LoadAndSet k ''ns1/api.example.com:6443/admin'' (Inr 3)] \<and>
        current_context k = ''ns1/api.example.com:6443/admin'' \<and>
        clusters k =
          [\<lparr>cluster = \<lparr>insecure_skip_tls_verify = ''true'',
               cluster_server = ''https://api.example.com:6443''\<rparr>,
            cluster_name = ''api.example.com:6443''\<rparr>] \<and>
        contexts k =
          [\<lparr>context_of = \<lparr>context_cluster = ''api.example.com:6443'',
               context_namespace = ''ns1'',
               context_user = ''admin/api.example.com:6443''\<rparr>,
            context_name = ''ns1/api.example.com:6443/admin''\<rparr>] \<and>
        users k =
          [\<lparr>user_name = ''admin/api.example.com:6443'',
            user_of = \<lparr>user_token = Some ''secret''\<rparr>\<rparr>]"
    using k c
    by (simp add: token_context_def format_str_def format_int_def str_6443 init_def example_cluster_def)
  from l f t 1 2 3 show ?thesis by (simp add: token_context_def)
qed

section \<open>The fatal path\<close>

text \<open>
  C2. When the loader fails, its exception is raised again as \<^verbatim>\<open>AnsibleParserError\<close>,
  before \<^verbatim>\<open>_populate\<close> is entered, with or without the client library. With the library
  imported this is the only way \<^verbatim>\<open>parse\<close> raises: once the configuration is loaded the
  method returns normally, whatever happens in \<^verbatim>\<open>_populate\<close>, whose handlers catch every
  exception. In particular a configuration object without the key \<open>contexts\<close> is then
  not fatal: the loop over \<^verbatim>\<open>None\<close> raises, the error is reported once, no request is
  made, nothing reaches the inventory, and the run completes. The example after the
  theorem shows this run, and the run of a loaded configuration without the library,
  which a \<^verbatim>\<open>NameError\<close> ends.
\<close>

theorem parse_fatal_path:
  "parse lib (Inl e) st = Inl (AnsibleParserError e) \<and>
   parse (Imported w) (Inr config) st = Inr (populate w config st) \<and>
   ((\<exists>err. parse (Imported w) loaded st = Inl err) \<longleftrightarrow> (\<exists>e. loaded = Inl e)) \<and>
   parse (Imported w) (Inr \<lparr>cfg_plugin = pl, cfg_contexts = None\<rparr>) st =
     Inr (st\<lparr>plugin := (case pl of None \<Rightarrow> ''kubernetes'' | Some n \<Rightarrow> n),
              errors := errors st @ [message not_iterable]\<rparr>)"
  by (cases loaded) (simp_all add: parse_def populate_def get_plugin_def fail_def Let_def)

theorem parse_fatal_path_counterexample:
  "parse (Imported example_cluster) (Inr no_contexts_config) init =
     Inr (init\<lparr>plugin := ''kubernetes'', errors := [''NoneType object is not iterable'']\<rparr>) \<and>
   \<not> isl (parse (Imported example_cluster) (Inr no_contexts_config) init) \<and>
   parse Missing (Inr local_config) init =
     Inl (Uncaught (NameError ''global name ConfigException is not defined''))"
  by (simp add: parse_def populate_def populate_unbound_def unbound_handlers_def name_error_def
      get_plugin_def fail_def Let_def no_contexts_config_def local_config_def init_def
      not_iterable_def)

text \<open>
  X2. Without the client library a loaded configuration ends in a \<^verbatim>\<open>NameError\<close> that
  leaves \<^verbatim>\<open>parse\<close>, raised by the first \<^verbatim>\<open>except\<close> clause of \<^verbatim>\<open>_populate\<close>, unless its list of
  contexts is empty: then no name of the library is looked up and the run completes
  with an empty inventory. Nothing is reported in either case.
\<close>

theorem parse_without_library:
  "(cfg_contexts config \<noteq> Some [] \<longrightarrow>
      parse Missing (Inr config) st = Inl (Uncaught (name_error ''ConfigException''))) \<and>
   (cfg_contexts config = Some [] \<longrightarrow>
      parse Missing (Inr config) st = Inr (st\<lparr>plugin := get_plugin config\<rparr>))"
proof (cases "cfg_contexts config")
  case None
  then show ?thesis
    by (simp add: parse_def populate_unbound_def unbound_handlers_def Let_def)
next
  case (Some cs)
  then show ?thesis
    by (cases cs) (simp_all add: parse_def populate_unbound_def unbound_handlers_def Let_def)
qed

theorem parse_without_library_witness:
  "cfg_contexts local_config \<noteq> Some [] \<and>
   parse Missing (Inr local_config) init =
     Inl (Uncaught (NameError ''global name ConfigException is not defined'')) \<and>
   cfg_contexts \<lparr>cfg_plugin = None, cfg_contexts = Some []\<rparr> = Some [] \<and>
   parse Missing (Inr \<lparr>cfg_plugin = None, cfg_contexts = Some []\<rparr>) init =
     Inr (init\<lparr>plugin := ''kubernetes''\<rparr>)"
proof -
  have a: "cfg_contexts local_config \<noteq> Some []"
    by (simp add: local_config_def)
  have b: "cfg_contexts \<lparr>cfg_plugin = None, cfg_contexts = Some []\<rparr> = Some []"
    by simp
  from parse_without_library [of local_config init] a
  have 1: "parse Missing (Inr local_config) init =
     Inl (Uncaught (NameError ''global name ConfigException is not defined''))"
    by (simp add: name_error_def)
  from parse_without_library [of "\<lparr>cfg_plugin = None, cfg_contexts = Some []\<rparr>" init] b
  have 2: "parse Missing (Inr \<lparr>cfg_plugin = None, cfg_contexts = Some []\<rparr>) init =
     Inr (init\<lparr>plugin := ''kubernetes''\<rparr>)"
    by (simp add: get_plugin_def)
  from a b 1 2 show ?thesis by blast
qed

section \<open>Failures\<close>

lemma populate_namespaces_append:
  "populate_namespaces w c (xs @ ys) st =
     (case populate_namespaces w c xs st of
        Raised e s \<Rightarrow> Raised e s
      | Done s \<Rightarrow> populate_namespaces w c ys s)"
  by (induction xs arbitrary: st) (simp_all add: Let_def split: option.splits sum.splits)

lemma populate_contexts_append:
  "populate_contexts w (xs @ ys) st =
     (case populate_contexts w xs st of
        Raised e s \<Rightarrow> Raised e s
      | Done s \<Rightarrow> populate_contexts w ys s)"
  by (induction xs arbitrary: st) (simp_all split: outcome.splits)

lemma populate_sink_prefix: "prefix (sink st) (sink (populate w config st))"
proof -
  obtain visits where
    "sink (populate w config st) = sink st @ concat (map (visit_calls (get_plugin config)) visits)"
    using populate_visits [of w config st] by blast
  then show ?thesis by simp
qed

lemma example_contexts_run:
  "populate_contexts example_cluster [local_context] (init\<lparr>plugin := get_plugin forbidden_second_config\<rparr>) =
     Done (populate example_cluster local_config init)"
  by (simp add: example_defs run_defs forbidden_second_config_def sublist_code)

text \<open>
  C1. The handlers of \<^verbatim>\<open>_populate\<close> enclose the loop over the contexts, so an exception
  raised in the loop ends it. When listing the pods of a namespace fails, after some
  contexts and some namespaces of the current context have been processed, the run is
  over: the state is the one reached at the failure, plus the failed request and the
  one reported error; the namespaces and contexts that follow are not processed. A
  failure to list the endpoints of a namespace is caught in \<^verbatim>\<open>_kube_service_group\<close>:
  it is reported and the loop goes on with the next namespace. An exception raised in
  the body of \<^verbatim>\<open>_connect\<close> is reported there and leaves the inventory untouched. In all
  cases what the inventory has received stays: the calls made before are a prefix of
  the calls at the end.
\<close>

theorem failure_in_a_context:
  "(cfg_contexts config = Some (before @ c # after) \<and>
    populate_contexts w before (st\<lparr>plugin := get_plugin config\<rparr>) = Done st1 \<and>
    namespaces c = Some (visited @ namespace # unvisited) \<and>
    populate_namespaces w c visited (connect w c st1) = Done st2 \<and>
    api st2 = Some a \<and> list_namespaced_pod w a namespace = Inl e \<longrightarrow>
      populate w config st =
        st2\<lparr>requests := requests st2 @ [ListNamespacedPod a namespace (Inl e)],
            errors := errors st2 @ [message e]\<rparr>) \<and>
   (api st = Some a \<and> list_namespaced_pod w a namespace = Inr items \<and>
    list_namespaced_endpoints w a namespace = Inl e \<and>
    st3 = populate_pods namespace c items
            (st\<lparr>requests := requests st @ [ListNamespacedPod a namespace (Inr items)]\<rparr>) \<longrightarrow>
      populate_namespaces w c (namespace # unvisited) st =
        populate_namespaces w c unvisited
          (st3\<lparr>requests := requests st3 @ [ListNamespacedEndpoints a namespace (Inl e)],
               errors := errors st3 @ [message e]\<rparr>)) \<and>
   (snd (connect_body w c) = Inl e \<longrightarrow>
      errors (connect w c st) = errors st @ [message e] \<and> sink (connect w c st) = sink st) \<and>
   prefix (sink st) (sink (populate w config st))"
proof (intro conjI)
  show "cfg_contexts config = Some (before @ c # after) \<and>
    populate_contexts w before (st\<lparr>plugin := get_plugin config\<rparr>) = Done st1 \<and>
    namespaces c = Some (visited @ namespace # unvisited) \<and>
    populate_namespaces w c visited (connect w c st1) = Done st2 \<and>
    api st2 = Some a \<and> list_namespaced_pod w a namespace = Inl e \<longrightarrow>
      populate w config st =
        st2\<lparr>requests := requests st2 @ [ListNamespacedPod a namespace (Inl e)],
            errors := errors st2 @ [message e]\<rparr>"
  proof
    assume h: "cfg_contexts config = Some (before @ c # after) \<and>
      populate_contexts w before (st\<lparr>plugin := get_plugin config\<rparr>) = Done st1 \<and>
      namespaces c = Some (visited @ namespace # unvisited) \<and>
      populate_namespaces w c visited (connect w c st1) = Done st2 \<and>
      api st2 = Some a \<and> list_namespaced_pod w a namespace = Inl e"
    let ?st3 = "st2\<lparr>requests := requests st2 @ [ListNamespacedPod a namespace (Inl e)]\<rparr>"
    have "populate_namespaces w c (visited @ namespace # unvisited) (connect w c st1) = Raised e ?st3"
      using h by (simp add: populate_namespaces_append Let_def)
    then have "populate_context w c st1 = Raised e ?st3"
      using h by (simp add: populate_context_def Let_def)
    then have "populate_contexts w (before @ c # after) (st\<lparr>plugin := get_plugin config\<rparr>) =
        Raised e ?st3"
      using h by (simp add: populate_contexts_append)
    then show "populate w config st =
        st2\<lparr>requests := requests st2 @ [ListNamespacedPod a namespace (Inl e)],
            errors := errors st2 @ [message e]\<rparr>"
      using h by (simp add: populate_def Let_def fail_def)
  qed
next
  show "api st = Some a \<and> list_namespaced_pod w a namespace = Inr items \<and>
    list_namespaced_endpoints w a namespace = Inl e \<and>
    st3 = populate_pods namespace c items
            (st\<lparr>requests := requests st @ [ListNamespacedPod a namespace (Inr items)]\<rparr>) \<longrightarrow>
      populate_namespaces w c (namespace # unvisited) st =
        populate_namespaces w c unvisited
          (st3\<lparr>requests := requests st3 @ [ListNamespacedEndpoints a namespace (Inl e)],
               errors := errors st3 @ [message e]\<rparr>)"
    by (simp add: Let_def kube_service_group_def fail_def)
next
  show "snd (connect_body w c) = Inl e \<longrightarrow>
      errors (connect w c st) = errors st @ [message e] \<and> sink (connect w c st) = sink st"
    by (cases "connect_body w c") (simp add: connect_def Let_def fail_def)
next
  show "prefix (sink st) (sink (populate w config st))"
    by (rule populate_sink_prefix)
qed

theorem failure_in_a_context_witness:
  "cfg_contexts forbidden_second_config = Some ([local_context] @ forbidden_context # [token_context]) \<and>
   populate_contexts example_cluster [local_context]
     (init\<lparr>plugin := get_plugin forbidden_second_config\<rparr>) =
     Done (populate example_cluster local_config init) \<and>
   namespaces forbidden_context = Some ([] @ ''forbidden'' # []) \<and>
   list_namespaced_pod example_cluster 1 ''forbidden'' = Inl (ApiException ''Forbidden'') \<and>
   sink (populate example_cluster forbidden_second_config init) =
     sink (populate example_cluster local_config init) \<and>
   errors (populate example_cluster forbidden_second_config init) = [''Forbidden''] \<and>
   list_namespaced_endpoints example_cluster 1 ''ns2'' = Inl (ApiException ''endpoints is forbidden'') \<and>
   populate_namespaces example_cluster local_context (''ns2'' # [''ns1'']) (init\<lparr>api := Some 1\<rparr>) =
     populate_namespaces example_cluster local_context [''ns1'']
       (init\<lparr>api := Some 1,
            requests := [ListNamespacedPod 1 ''ns2'' (Inr []),
              ListNamespacedEndpoints 1 ''ns2'' (Inl (ApiException ''endpoints is forbidden''))],
            errors := [''endpoints is forbidden'']\<rparr>) \<and>
   snd (connect_body example_cluster file_context) = Inl (ConfigException ''Invalid kube-config file'') \<and>
   errors (connect example_cluster file_context init) = [''Invalid kube-config file''] \<and>
   sink (connect example_cluster file_context init) = sink init \<and>
   prefix (sink init) (sink (populate example_cluster forbidden_second_config init))"
proof -
  let ?st1 = "populate example_cluster local_config init"
  let ?st2 = "connect example_cluster forbidden_context ?st1"
  let ?s = "init\<lparr>api := Some 1\<rparr>"
  let ?s3 = "populate_pods ''ns2'' local_context []
      (?s\<lparr>requests := requests ?s @ [ListNamespacedPod 1 ''ns2'' (Inr [])]\<rparr>)"
  have h1a: "cfg_contexts forbidden_second_config =
      Some ([local_context] @ forbidden_context # [token_context])"
    by (simp add: forbidden_second_config_def)
  have h1c: "namespaces forbidden_context = Some ([] @ ''forbidden'' # [])"
    by (simp add: forbidden_context_def)
  have h1d: "populate_namespaces example_cluster forbidden_context [] ?st2 = Done ?st2"
    by simp
  have h1e: "api ?st2 = Some 1"
    by (simp add: connect_def connect_body_def forbidden_context_def truthy_bool_def Let_def
        example_cluster_def)
  have h1f: "list_namespaced_pod example_cluster 1 ''forbidden'' = Inl (ApiException ''Forbidden'')"
    by (simp add: example_cluster_def)
  from h1a example_contexts_run h1c h1d h1e h1f
  have h1: "cfg_contexts forbidden_second_config = Some ([local_context] @ forbidden_context # [token_context]) \<and>
      populate_contexts example_cluster [local_context]
        (init\<lparr>plugin := get_plugin forbidden_second_config\<rparr>) = Done ?st1 \<and>
      namespaces forbidden_context = Some ([] @ ''forbidden'' # []) \<and>
      populate_namespaces example_cluster forbidden_context [] ?st2 = Done ?st2 \<and>
      api ?st2 = Some 1 \<and>
      list_namespaced_pod example_cluster 1 ''forbidden'' = Inl (ApiException ''Forbidden'')"
    by blast
  have h2: "api ?s = Some 1 \<and> list_namespaced_pod example_cluster 1 ''ns2'' = Inr [] \<and>
      list_namespaced_endpoints example_cluster 1 ''ns2'' = Inl (ApiException ''endpoints is forbidden'') \<and>
      ?s3 = ?s3"
    by (simp add: example_cluster_def)
  have h3: "snd (connect_body example_cluster file_context) = Inl (ConfigException ''Invalid kube-config file'')"
    by (simp add: connect_body_def file_context_def example_cluster_def truthy_bool_def
        truthy_str_def Let_def)
  note t = failure_in_a_context [of forbidden_second_config "[local_context]" forbidden_context
      "[token_context]" example_cluster init ?st1 "[]" "''forbidden''" "[]" ?st2 1
      "ApiException ''Forbidden''"]
  from t h1 have r: "populate example_cluster forbidden_second_config init =
      ?st2\<lparr>requests := requests ?st2 @ [ListNamespacedPod 1 ''forbidden'' (Inl (ApiException ''Forbidden''))],
          errors := errors ?st2 @ [message (ApiException ''Forbidden'')]\<rparr>"
    by blast
  have "errors ?st2 = errors ?st1" and s2: "sink ?st2 = sink ?st1"
    by (simp_all add: connect_def connect_body_def forbidden_context_def example_cluster_def
        truthy_bool_def Let_def)
  then have e2: "errors ?st2 = []"
    by (simp add: example_errors)
  from r e2 s2 have c1: "sink (populate example_cluster forbidden_second_config init) = sink ?st1"
    and c2: "errors (populate example_cluster forbidden_second_config init) = [''Forbidden'']"
    by simp_all
  note u = failure_in_a_context [where w = example_cluster and st = ?s and a = 1
      and namespace = "''ns2''" and items = "[]" and e = "ApiException ''endpoints is forbidden''"
      and ?st3.0 = ?s3 and c = local_context and unvisited = "[''ns1'']"]
  from u h2 have "populate_namespaces example_cluster local_context (''ns2'' # [''ns1'']) ?s =
        populate_namespaces example_cluster local_context [''ns1'']
          (?s3\<lparr>requests := requests ?s3 @ [ListNamespacedEndpoints 1 ''ns2'' (Inl (ApiException ''endpoints is forbidden''))],
               errors := errors ?s3 @ [message (ApiException ''endpoints is forbidden'')]\<rparr>)"
    by blast
  then have c3: "populate_namespaces example_cluster local_context (''ns2'' # [''ns1'']) ?s =
     populate_namespaces example_cluster local_context [''ns1'']
       (init\<lparr>api := Some 1,
            requests := [ListNamespacedPod 1 ''ns2'' (Inr []),
              ListNamespacedEndpoints 1 ''ns2'' (Inl (ApiException ''endpoints is forbidden''))],
            errors := [''endpoints is forbidden'']\<rparr>)"
    by (simp add: init_def)
  note v = failure_in_a_context [where w = example_cluster and c = file_context and st = init
      and e = "ConfigException ''Invalid kube-config file''" and config = forbidden_second_config]
  from v h3 have c4: "errors (connect example_cluster file_context init) = [''Invalid kube-config file'']"
    and c5: "sink (connect example_cluster file_context init) = sink init"
    by (simp_all add: init_def)
  from v have c6: "prefix (sink init) (sink (populate example_cluster forbidden_second_config init))"
    by blast
  from h1 h2 h3 c1 c2 c3 c4 c5 c6 show ?thesis by blast
qed

theorem failure_in_a_context_counterexample:
  "sink (populate example_cluster failing_first_config init) = [] \<and>
   errors (populate example_cluster failing_first_config init) =
     [''Invalid kube-config file'', ''InventoryModule object has no attribute api''] \<and>
   requests (populate example_cluster failing_first_config init) =
     [LoadKubeConfig (Some ''/etc/kube/missing.yaml'')
        (Inl (ConfigException ''Invalid kube-config file''))] \<and>
   sink (populate example_cluster forbidden_first_config init) = [] \<and>
   errors (populate example_cluster forbidden_first_config init) = [''Forbidden''] \<and>
   requests (populate example_cluster forbidden_first_config init) =
     [LoadKubeConfig None (Inr 1),
      ListNamespacedPod 1 ''forbidden'' (Inl (ApiException ''Forbidden''))] \<and>
   hosts_added (sink (populate example_cluster local_config init)) =
     [''app_web-1'', ''app_web-2'', ''proxy_web-2'']"
  by (simp add: example_sink)
     (simp add: failing_first_config_def forbidden_first_config_def file_context_def
        forbidden_context_def local_context_def example_cluster_def run_defs no_api_attribute_def)

section \<open>After a failed connection\<close>

text \<open>
  X1. When the body of \<^verbatim>\<open>_connect\<close> raises, \<^verbatim>\<open>self.api\<close> keeps the value it had, and the
  loop over the namespaces of the context is entered all the same (lines 295 to 297).
  For a first context the attribute is unset and the first namespace ends the run on
  the missing attribute; otherwise the pods of the first namespace are requested from
  the client of an earlier context.
\<close>

theorem failed_connect_keeps_client:
  "(snd (connect_body w c) = Inl e \<longrightarrow> api (connect w c st) = api st) \<and>
   (snd (connect_body w c) = Inl e \<and> api st = None \<and> namespaces c = Some (namespace # rest) \<longrightarrow>
      populate_context w c st = Raised no_api_attribute (connect w c st)) \<and>
   (snd (connect_body w c) = Inl e \<and> api st = Some a \<and> namespaces c = Some (namespace # rest) \<longrightarrow>
      (\<exists>made. requests (state_of (populate_context w c st)) =
         requests (connect w c st) @
           ListNamespacedPod a namespace (list_namespaced_pod w a namespace) # made))"
proof (intro conjI impI)
  assume "snd (connect_body w c) = Inl e"
  then show "api (connect w c st) = api st"
    by (cases "connect_body w c") (simp add: connect_def Let_def fail_def)
next
  assume h: "snd (connect_body w c) = Inl e \<and> api st = None \<and> namespaces c = Some (namespace # rest)"
  then have "api (connect w c st) = None"
    by (cases "connect_body w c") (simp add: connect_def Let_def fail_def)
  with h show "populate_context w c st = Raised no_api_attribute (connect w c st)"
    by (simp add: populate_context_def Let_def)
next
  assume h: "snd (connect_body w c) = Inl e \<and> api st = Some a \<and> namespaces c = Some (namespace # rest)"
  then have a: "api (connect w c st) = Some a"
    by (cases "connect_body w c") (simp add: connect_def Let_def fail_def)
  have grow: "\<exists>made. requests (state_of (populate_namespaces w c nss s)) = requests s @ made" for nss s
  proof (induction nss arbitrary: s)
    case Nil
    then show ?case by simp
  next
    case (Cons ns nss)
    show ?case
    proof (cases "api s")
      case None
      then show ?thesis by simp
    next
      case (Some b)
      show ?thesis
      proof (cases "list_namespaced_pod w b ns")
        case (Inl x)
        with Some show ?thesis by (simp add: Let_def)
      next
        case (Inr items)
        let ?s1 = "kube_service_group w ns (populate_pods ns c items
            (s\<lparr>requests := requests s @ [ListNamespacedPod b ns (Inr items)]\<rparr>))"
        from Cons.IH [of ?s1] obtain made where
          "requests (state_of (populate_namespaces w c nss ?s1)) = requests ?s1 @ made"
          by blast
        moreover have "\<exists>m. requests ?s1 = requests s @ m"
          by (simp add: kube_service_group_def Let_def fail_def split: option.splits sum.splits)
        ultimately show ?thesis using Some Inr by (auto simp: Let_def)
      qed
    qed
  qed
  let ?s = "connect w c st"
  show "\<exists>made. requests (state_of (populate_context w c st)) =
         requests (connect w c st) @
           ListNamespacedPod a namespace (list_namespaced_pod w a namespace) # made"
  proof (cases "list_namespaced_pod w a namespace")
    case (Inl x)
    with h a show ?thesis by (simp add: populate_context_def Let_def)
  next
    case (Inr items)
    let ?s1 = "kube_service_group w namespace (populate_pods namespace c items
        (?s\<lparr>requests := requests ?s @ [ListNamespacedPod a namespace (Inr items)]\<rparr>))"
    from grow [of rest ?s1] obtain made where
      m: "requests (state_of (populate_namespaces w c rest ?s1)) = requests ?s1 @ made"
      by blast
    have "\<exists>m. requests ?s1 = requests ?s @ ListNamespacedPod a namespace (Inr items) # m"
      by (simp add: kube_service_group_def Let_def fail_def split: option.splits sum.splits)
    with m h a Inr show ?thesis
      by (auto simp: populate_context_def Let_def)
  qed
qed

theorem failed_connect_keeps_client_witness:
  "snd (connect_body example_cluster file_context) = Inl (ConfigException ''Invalid kube-config file'') \<and>
   api (connect example_cluster file_context init) = api init \<and>
   namespaces file_context = Some (''ns1'' # []) \<and>
   populate_context example_cluster file_context init =
     Raised no_api_attribute (connect example_cluster file_context init) \<and>
   api (init\<lparr>api := Some 1\<rparr>) = Some 1 \<and>
   (\<exists>made. requests (state_of (populate_context example_cluster file_context (init\<lparr>api := Some 1\<rparr>))) =
      requests (connect example_cluster file_context (init\<lparr>api := Some 1\<rparr>)) @
        ListNamespacedPod 1 ''ns1'' (list_namespaced_pod example_cluster 1 ''ns1'') # made)"
proof -
  have b: "snd (connect_body example_cluster file_context) = Inl (ConfigException ''Invalid kube-config file'')"
    by (simp add: connect_body_def file_context_def example_cluster_def truthy_bool_def
        truthy_str_def Let_def)
  have n: "namespaces file_context = Some (''ns1'' # [])"
    by (simp add: file_context_def)
  have i: "api init = None" "api (init\<lparr>api := Some 1\<rparr>) = Some 1"
    by (simp_all add: init_def)
  note t = failed_connect_keeps_client [of example_cluster file_context
      "ConfigException ''Invalid kube-config file''" init "''ns1''" "[]"]
  note u = failed_connect_keeps_client [of example_cluster file_context
      "ConfigException ''Invalid kube-config file''" "init\<lparr>api := Some 1\<rparr>" "''ns1''" "[]" 1]
  from t b n i(1) have 1: "api (connect example_cluster file_context init) = api init"
    and 2: "populate_context example_cluster file_context init =
       Raised no_api_attribute (connect example_cluster file_context init)"
    by blast+
  from u b n i(2) have 3: "\<exists>made.
      requests (state_of (populate_context example_cluster file_context (init\<lparr>api := Some 1\<rparr>))) =
      requests (connect example_cluster file_context (init\<lparr>api := Some 1\<rparr>)) @
        ListNamespacedPod 1 ''ns1'' (list_namespaced_pod example_cluster 1 ''ns1'') # made"
    by blast
  from b n i(2) 1 2 3 show ?thesis by blast
qed

end
